theory Spec2Isabelle
  imports Main "HOL-Library.Sublist"
begin

section \<open>The project list of the stm32pio GUI (src/stm32pio/gui/list.py)\<close>

text \<open>
  The class \<open>ProjectsList\<close> keeps an ordered list of \<open>ProjectListItem\<close> objects,
  deduplicates additions, removes by index and saves the list to the settings. The
  embedding is a state-passing one over an explicit store: Python objects that the code
  shares or mutates (the units, the lists and the dicts reachable from the keyword
  arguments) live at references, and everything the code tells the outside (Qt
  notifications, signals, log records, the task handed to the worker pool) is appended to
  a trace of events.
\<close>

subsection \<open>Values and objects\<close>

type_synonym ref = nat

text \<open>
  The values a keyword-argument mapping (\<open>Mapping[str, Any]\<close>) can hold. Lists and dicts
  are objects: the value is the reference, the content is in the store.
\<close>

datatype pyval =
    VNone
  | VStr string
  | VInt int
  | VList ref
  | VDict ref
  | VObj ref

text \<open>
  The exceptions of the model. \<open>OSError\<close> stands for the class and its subclasses
  (\<open>FileNotFoundError\<close>, \<open>PermissionError\<close>, ...), which \<open>except OSError\<close> catches;
  \<open>ValueError\<close> and \<open>UnicodeEncodeError\<close> are what \<open>os.stat\<close> raises for a path with
  an embedded NUL and for one that cannot be encoded.
\<close>

datatype pyerr = TypeError | AttributeError | OSError | ValueError | UnicodeEncodeError

text \<open>The inner \<open>Stm32pio\<close> instance: the code reads its \<open>path\<close> only (as \<open>str(path)\<close>).\<close>

record Stm32pio =
  path :: string

text \<open>
  A \<open>ProjectListItem\<close>, as far as list.py reads it: the displayed \<open>name\<close>, the
  \<open>project\<close> (\<open>None\<close> until the inner instance has been constructed, and for ever when its
  construction failed) and \<open>fromStartup\<close>.
\<close>

record ProjectListItem =
  name :: string
  project :: "Stm32pio option"
  fromStartup :: bool

datatype level = WARNING | INFO | ERROR

text \<open>The log records of list.py, one constructor for each format string.\<close>

datatype message =
    AlreadyInList string          \<comment> \<open>"This project is already in the list: {path}"\<close>
  | UpdatingParameters pyval      \<comment> \<open>"updating parameters from the CLI... {proj_params}"\<close>
  | GivenPathIsEmpty string       \<comment> \<open>"Given path is empty: {path_str}"\<close>
  | IncorrectPath string          \<comment> \<open>"Incorrect path: {path_str}"\<close>
  | NoPathsGiven                  \<comment> \<open>"No paths were given"\<close>
  | ProjectsSaved nat             \<comment> \<open>"{len(projects_to_save)} projects have been saved to Settings"\<close>

datatype event =
    ModuleLog level message               \<comment> \<open>\<open>module_logger.warning/info/error\<close>\<close>
  | ItemLog ref level message             \<comment> \<open>the \<open>logger\<close> of a unit\<close>
  | Run ref string "pyval list"           \<comment> \<open>\<open>unit.run(action, args)\<close>\<close>
  | GoToProject int                       \<comment> \<open>\<open>self.goToProject.emit(index)\<close>\<close>
  | Connect ref nat                       \<comment> \<open>\<open>unit.initialized.connect(callback)\<close>\<close>
  | BeginInsertRows nat nat
  | EndInsertRows
  | BeginRemoveRows nat nat
  | EndRemoveRows
  | PoolStart                             \<comment> \<open>\<open>workers_pool.start(Worker(self._saveInSettings, ...))\<close>\<close>
  | DeleteLater ref                       \<comment> \<open>\<open>unit.deleteLater()\<close>\<close>

text \<open>
  The state: \<open>projects\<close> is \<open>self.projects\<close> (references to the units, in order),
  \<open>items\<close>, \<open>lists\<close> and \<open>dicts\<close> are the store, \<open>next_ref\<close> is the next unused
  reference, \<open>this\<close> is the reference of the model itself (\<open>self\<close>), \<open>events\<close> is the trace.
  A dict is an association list with distinct keys, in insertion order.
\<close>

record state =
  projects :: "ref list"
  items :: "ref \<Rightarrow> ProjectListItem"
  lists :: "ref \<Rightarrow> pyval list"
  dicts :: "ref \<Rightarrow> (pyval \<times> pyval) list"
  next_ref :: ref
  this :: ref
  events :: "event list"

text \<open>
  What list.py calls and src/ does not hold: \<open>pathlib.Path.samefile\<close> (the file system
  answers, or the call raises: \<open>OSError\<close> for a path that does not exist, another
  exception for a path that \<open>os.stat\<close> refuses), the \<open>QUrl\<close> class of Qt and the
  constructor of \<open>ProjectListItem\<close>. They are parameters of the model.
\<close>

record QUrl =
  isEmpty :: bool
  isLocalFile :: bool
  isRelative :: bool
  toLocalFile :: string

record externals =
  samefile :: "string \<Rightarrow> string \<Rightarrow> pyerr + bool"
  mkQUrl :: "string \<Rightarrow> QUrl"
  mkProjectListItem :: "(string \<times> pyval) list \<Rightarrow> ProjectListItem"

definition emit :: "event \<Rightarrow> state \<Rightarrow> state" where
  "emit e st = st\<lparr>events := events st @ [e]\<rparr>"

definition project_items :: "state \<Rightarrow> ProjectListItem list" where
  "project_items st = map (items st) (projects st)"

subsection \<open>get, rowCount\<close>

definition rowCount :: "state \<Rightarrow> nat" where
  "rowCount st = length (projects st)"

text \<open>\<open>index in range(len(self.projects))\<close>\<close>

definition in_range :: "int \<Rightarrow> state \<Rightarrow> bool" where
  "in_range index st \<longleftrightarrow> 0 \<le> index \<and> index < int (length (projects st))"

definition get :: "int \<Rightarrow> state \<Rightarrow> ref option" where
  "get index st = (if in_range index st then Some (projects st ! nat index) else None)"

subsection \<open>Duplicates\<close>

text \<open>
  One step of the generator \<open>each_project_is_duplicate_of\<close>:
  \<^verbatim>\<open>
  try:
      yield (list_item.project is not None and
             list_item.project.path.samefile(pathlib.Path(path))) or path == list_item.name
  except OSError:
      yield False
  \<close>
  \<open>and\<close> and \<open>or\<close> short-circuit: \<open>samefile\<close> is called only when the project is there,
  and the names are compared only when the left operand is false. The handler catches
  \<open>OSError\<close> only: any other exception of \<open>samefile\<close> leaves the generator.
\<close>

definition is_duplicate_of :: "externals \<Rightarrow> string \<Rightarrow> ProjectListItem \<Rightarrow> pyerr + bool" where
  "is_duplicate_of ext pth list_item =
     (case project list_item of
        None \<Rightarrow> Inr (pth = name list_item)
      | Some pr \<Rightarrow>
          (case samefile ext (path pr) pth of
             Inr True \<Rightarrow> Inr True
           | Inr False \<Rightarrow> Inr (pth = name list_item)
           | Inl e \<Rightarrow> if e = OSError then Inr False else Inl e))"

text \<open>
  What the generator yields, or raises, at each unit. It is consumed lazily: the element
  of a unit is computed only if \<open>next\<close> asks for it.
\<close>

definition each_project_is_duplicate_of ::
  "externals \<Rightarrow> string \<Rightarrow> state \<Rightarrow> (pyerr + bool) list" where
  "each_project_is_duplicate_of ext pth st = map (is_duplicate_of ext pth) (project_items st)"

text \<open>
  \<open>next((idx for idx, is_duplicated in enumerate(...) if is_duplicated), -1)\<close>: the
  enumeration starts at \<open>idx\<close>. \<open>next\<close> stops at the first true element, and an
  exception of the generator before that is the exception of \<open>next\<close>.
\<close>

fun first_index :: "nat \<Rightarrow> (pyerr + bool) list \<Rightarrow> pyerr + int" where
  "first_index idx [] = Inr (-1)"
| "first_index idx (Inl e # rest) = Inl e"
| "first_index idx (Inr is_duplicated # rest) =
     (if is_duplicated then Inr (int idx) else first_index (Suc idx) rest)"

definition duplicate_index :: "externals \<Rightarrow> string \<Rightarrow> state \<Rightarrow> pyerr + int" where
  "duplicate_index ext pth st = first_index 0 (each_project_is_duplicate_of ext pth st)"

subsection \<open>addListItem\<close>

text \<open>Python's truth value of an object, and \<open>len\<close>.\<close>

fun truthy :: "state \<Rightarrow> pyval \<Rightarrow> bool" where
  "truthy st VNone = False"
| "truthy st (VStr s) = (s \<noteq> [])"
| "truthy st (VInt i) = (i \<noteq> 0)"
| "truthy st (VList r) = (lists st r \<noteq> [])"
| "truthy st (VDict r) = (dicts st r \<noteq> [])"
| "truthy st (VObj r) = True"

fun py_len :: "state \<Rightarrow> pyval \<Rightarrow> pyerr + nat" where
  "py_len st (VStr s) = Inr (length s)"
| "py_len st (VList r) = Inr (length (lists st r))"
| "py_len st (VDict r) = Inr (length (dicts st r))"
| "py_len st VNone = Inl TypeError"
| "py_len st (VInt i) = Inl TypeError"
| "py_len st (VObj r) = Inl TypeError"

text \<open>\<open>d[k] = v\<close> on an association list: an existing key keeps its place.\<close>

fun dict_set :: "pyval \<Rightarrow> pyval \<Rightarrow> (pyval \<times> pyval) list \<Rightarrow> (pyval \<times> pyval) list" where
  "dict_set k v [] = [(k, v)]"
| "dict_set k v ((k', v') # d) = (if k' = k then (k, v) # d else (k', v') # dict_set k v d)"

text \<open>
  \<open>dict(list_item_kwargs if list_item_kwargs is not None else {})\<close>: a new dict with the
  same entries. The copy is local to the call, so the model holds it as a value; the
  caller's dict stays at its reference.
\<close>

definition copy_kwargs :: "ref option \<Rightarrow> state \<Rightarrow> (pyval \<times> pyval) list" where
  "copy_kwargs list_item_kwargs st =
     (case list_item_kwargs of None \<Rightarrow> [] | Some r \<Rightarrow> dicts st r)"

text \<open>
  \<^verbatim>\<open>
  if 'parent' not in list_item_kwargs or not list_item_kwargs['parent']:
      list_item_kwargs['parent'] = self
  \<close>
\<close>

definition set_parent :: "state \<Rightarrow> (pyval \<times> pyval) list \<Rightarrow> (pyval \<times> pyval) list" where
  "set_parent st kw =
     (case map_of kw (VStr ''parent'') of
        None \<Rightarrow> dict_set (VStr ''parent'') (VObj (this st)) kw
      | Some v \<Rightarrow> if \<not> truthy st v then dict_set (VStr ''parent'') (VObj (this st)) kw else kw)"

text \<open>
  \<open>list_item_kwargs.get('project_kwargs', {}).get('parameters', {})\<close>. \<open>None\<close> stands for
  the default \<open>{}\<close>, a new empty dict. A \<open>project_kwargs\<close> that is not a dict has no
  \<open>get\<close>.
\<close>

definition get_proj_params :: "state \<Rightarrow> (pyval \<times> pyval) list \<Rightarrow> pyerr + pyval option" where
  "get_proj_params st kw =
     (case map_of kw (VStr ''project_kwargs'') of
        None \<Rightarrow> Inr None
      | Some (VDict d) \<Rightarrow> Inr (map_of (dicts st d) (VStr ''parameters''))
      | Some _ \<Rightarrow> Inl AttributeError)"

definition len_proj_params :: "state \<Rightarrow> pyval option \<Rightarrow> pyerr + nat" where
  "len_proj_params st proj_params =
     (case proj_params of None \<Rightarrow> Inr 0 | Some v \<Rightarrow> py_len st v)"

text \<open>
  The branch of a duplicate, after the warning:
  \<^verbatim>\<open>
  proj_params = list_item_kwargs.get('project_kwargs', {}).get('parameters', {})
  if len(proj_params):
      self.projects[duplicate_index].logger.info(f"updating parameters from the CLI... {proj_params}")
      self.projects[duplicate_index].run('save_config', [proj_params])
  self.goToProject.emit(duplicate_index)
  return self.projects[duplicate_index]
  \<close>
\<close>

definition merge_duplicate ::
  "int \<Rightarrow> (pyval \<times> pyval) list \<Rightarrow> state \<Rightarrow> (pyerr + ref) \<times> state" where
  "merge_duplicate dup kw st =
     (let existing = projects st ! nat dup in
      case get_proj_params st kw of
        Inl e \<Rightarrow> (Inl e, st)
      | Inr proj_params \<Rightarrow>
          (case len_proj_params st proj_params of
             Inl e \<Rightarrow> (Inl e, st)
           | Inr n \<Rightarrow>
               (let st1 =
                      (if n \<noteq> 0
                       then emit (Run existing ''save_config'' [the proj_params])
                              (emit (ItemLog existing INFO (UpdatingParameters (the proj_params))) st)
                       else st)
                in (Inr existing, emit (GoToProject dup) st1))))"

text \<open>
  The path goes into the constructor's arguments:
  \<^verbatim>\<open>
  if 'project_args' not in list_item_kwargs or len(list_item_kwargs['project_args']) == 0:
      list_item_kwargs['project_args'] = [path]
  else:
      list_item_kwargs['project_args'][0] = path
  \<close>
  The first branch makes a new list object; the second one writes into the object the
  caller gave: a list is updated at index 0, a dict gets the key \<open>0\<close>, a string refuses
  the assignment.
\<close>

definition insert_path ::
  "string \<Rightarrow> (pyval \<times> pyval) list \<Rightarrow> state \<Rightarrow> (pyerr + (pyval \<times> pyval) list) \<times> state" where
  "insert_path pth kw st =
     (let fresh = (dict_set (VStr ''project_args'') (VList (next_ref st)) kw,
                   st\<lparr>lists := (lists st)(next_ref st := [VStr pth]),
                      next_ref := Suc (next_ref st)\<rparr>)
      in case map_of kw (VStr ''project_args'') of
           None \<Rightarrow> (Inr (fst fresh), snd fresh)
         | Some v \<Rightarrow>
             (case py_len st v of
                Inl e \<Rightarrow> (Inl e, st)
              | Inr 0 \<Rightarrow> (Inr (fst fresh), snd fresh)
              | Inr (Suc n) \<Rightarrow>
                  (case v of
                     VList r \<Rightarrow> (Inr kw, st\<lparr>lists := (lists st)(r := (lists st r)[0 := VStr pth])\<rparr>)
                   | VDict r \<Rightarrow>
                       (Inr kw, st\<lparr>dicts := (dicts st)(r := dict_set (VInt 0) (VStr pth) (dicts st r))\<rparr>)
                   | _ \<Rightarrow> (Inl TypeError, st))))"

text \<open>
  \<open>ProjectListItem(**list_item_kwargs)\<close>: every keyword must be a string.
\<close>

fun keyword_args :: "(pyval \<times> pyval) list \<Rightarrow> pyerr + (string \<times> pyval) list" where
  "keyword_args [] = Inr []"
| "keyword_args ((VStr k, v) # kw) =
     (case keyword_args kw of Inl e \<Rightarrow> Inl e | Inr ks \<Rightarrow> Inr ((k, v) # ks))"
| "keyword_args ((_, v) # kw) = Inl TypeError"

text \<open>
  The branch of a new path: the unit is constructed, the callback connected, and the unit
  appended between the two insert notifications:
  \<^verbatim>\<open>
  project = ProjectListItem(**list_item_kwargs)
  if on_initialized is not None:
      project.initialized.connect(on_initialized)
  self.beginInsertRows(QModelIndex(), self.rowCount(), self.rowCount())
  self.projects.append(project)
  self.endInsertRows()
  return project
  \<close>
\<close>

definition append_new ::
  "externals \<Rightarrow> (string \<times> pyval) list \<Rightarrow> nat option \<Rightarrow> state \<Rightarrow> ref \<times> state" where
  "append_new ext ks on_initialized st =
     (let r = next_ref st;
          st1 = st\<lparr>items := (items st)(r := mkProjectListItem ext ks), next_ref := Suc r\<rparr>;
          st2 = (case on_initialized of None \<Rightarrow> st1 | Some cb \<Rightarrow> emit (Connect r cb) st1);
          st3 = emit (BeginInsertRows (rowCount st2) (rowCount st2)) st2;
          st4 = st3\<lparr>projects := projects st3 @ [r]\<rparr>;
          st5 = emit EndInsertRows st4
      in (r, st5))"

definition addListItem ::
  "externals \<Rightarrow> string \<Rightarrow> ref option \<Rightarrow> nat option \<Rightarrow> state \<Rightarrow> (pyerr + ref) \<times> state" where
  "addListItem ext pth list_item_kwargs on_initialized st =
     (let kw = set_parent st (copy_kwargs list_item_kwargs st)
      in case duplicate_index ext pth st of
           Inl e \<Rightarrow> (Inl e, st)
         | Inr dup \<Rightarrow>
             if dup > -1
             then merge_duplicate dup kw (emit (ModuleLog WARNING (AlreadyInList pth)) st)
             else (case insert_path pth kw st of
                     (Inl e, st1) \<Rightarrow> (Inl e, st1)
                   | (Inr kw1, st1) \<Rightarrow>
                       (case keyword_args kw1 of
                          Inl e \<Rightarrow> (Inl e, st1)
                        | Inr ks \<Rightarrow>
                            (case append_new ext ks on_initialized st1 of
                               (r, st2) \<Rightarrow> (Inr r, st2)))))"

subsection \<open>saveInSettings, removeProject, addProjectsByPaths\<close>

text \<open>
  \<open>saveInSettings\<close> hands the save body to the worker pool and returns; the body runs
  later, in the pool's thread.
\<close>

definition saveInSettings :: "state \<Rightarrow> state" where
  "saveInSettings st = emit PoolStart st"

text \<open>
  \<^verbatim>\<open>
  if index in range(len(self.projects)):
      self.beginRemoveRows(QModelIndex(), index, index)
      project = self.projects.pop(index)
      self.endRemoveRows()
      if project.project is not None or project.fromStartup:
          self.saveInSettings()
      project.deleteLater()
  \<close>
\<close>

definition pop :: "nat \<Rightarrow> 'a list \<Rightarrow> 'a list" where
  "pop i xs = take i xs @ drop (Suc i) xs"

definition removeProject :: "int \<Rightarrow> state \<Rightarrow> state" where
  "removeProject index st =
     (if in_range index st
      then (let i = nat index;
                st1 = emit (BeginRemoveRows i i) st;
                r = projects st1 ! i;
                st2 = st1\<lparr>projects := pop i (projects st1)\<rparr>;
                st3 = emit EndRemoveRows st2;
                st4 = (if project (items st3 r) \<noteq> None \<or> fromStartup (items st3 r)
                       then saveInSettings st3 else st3)
            in emit (DeleteLater r) st4)
      else st)"

text \<open>
  One round of the loop of \<open>addProjectsByPaths\<close>; \<open>continue\<close> is the return of the state
  with no unit added. An exception of \<open>addListItem\<close> would leave the loop.
  \<^verbatim>\<open>
  path_qurl = QUrl(path_str)
  if path_qurl.isEmpty():
      module_logger.warning(f"Given path is empty: {path_str}")
      continue
  elif path_qurl.isLocalFile():
      path: str = path_qurl.toLocalFile()
  elif path_qurl.isRelative():
      path: str = path_str
  else:
      module_logger.error(f"Incorrect path: {path_str}")
      continue
  self.addListItem(path)
  \<close>
\<close>

definition add_path :: "externals \<Rightarrow> string \<Rightarrow> state \<Rightarrow> (pyerr + unit) \<times> state" where
  "add_path ext path_str st =
     (let path_qurl = mkQUrl ext path_str in
      if isEmpty path_qurl
      then (Inr (), emit (ModuleLog WARNING (GivenPathIsEmpty path_str)) st)
      else if isLocalFile path_qurl
      then (case addListItem ext (toLocalFile path_qurl) None None st of
              (Inl e, st1) \<Rightarrow> (Inl e, st1) | (Inr r, st1) \<Rightarrow> (Inr (), st1))
      else if isRelative path_qurl
      then (case addListItem ext path_str None None st of
              (Inl e, st1) \<Rightarrow> (Inl e, st1) | (Inr r, st1) \<Rightarrow> (Inr (), st1))
      else (Inr (), emit (ModuleLog ERROR (IncorrectPath path_str)) st))"

fun add_paths :: "externals \<Rightarrow> string list \<Rightarrow> state \<Rightarrow> (pyerr + unit) \<times> state" where
  "add_paths ext [] st = (Inr (), st)"
| "add_paths ext (path_str # rest) st =
     (case add_path ext path_str st of
        (Inl e, st1) \<Rightarrow> (Inl e, st1)
      | (Inr u, st1) \<Rightarrow> add_paths ext rest st1)"

text \<open>
  \<^verbatim>\<open>
  if len(paths):
      for path_str in paths: ...
      self.saveInSettings()
  else:
      module_logger.warning("No paths were given")
  \<close>
\<close>

definition addProjectsByPaths ::
  "externals \<Rightarrow> string list \<Rightarrow> state \<Rightarrow> (pyerr + unit) \<times> state" where
  "addProjectsByPaths ext paths st =
     (if length paths \<noteq> 0
      then (case add_paths ext paths st of
              (Inl e, st1) \<Rightarrow> (Inl e, st1)
            | (Inr u, st1) \<Rightarrow> (Inr (), saveInSettings st1))
      else (Inr (), emit (ModuleLog WARNING NoPathsGiven) st))"

subsection \<open>The settings\<close>

text \<open>
  Modelled from the spec: the durable store adapter, that is the settings object that
  \<open>stm32pio.gui.settings.global_instance()\<close> returns (a \<open>QSettings\<close>; neither the module
  nor Qt is under src/). The spec gives its contract: \<open>beginGroup(name)\<close>, \<open>endGroup()\<close>,
  \<open>removeKey(key)\<close> (clears whatever currently occupies that key, including any prior
  array), \<open>beginWriteArray(name)\<close>, \<open>setArrayIndex(i)\<close>, \<open>setValue(key, value)\<close>,
  \<open>endArray()\<close>, a key-value store with group and array scoping. The layout of an array
  is that of \<open>QSettings\<close>: entry \<open>i\<close> of the array \<open>a\<close> has the keys \<open>a/i+1/key\<close>, and
  \<open>a/size\<close> holds the length, written by \<open>endArray\<close> from the largest index set. A key is
  the list of its segments.
\<close>

datatype seg = Name string | Index nat

datatype qvariant = QStr string | QInt int

text \<open>
  An open scope: a group, or an array with the current entry (\<open>0\<close> before the first
  \<open>setArrayIndex\<close>, else the index plus one) and the largest entry so far.
\<close>

datatype scope = Group string | Array string nat nat

record QSettings =
  content :: "seg list \<Rightarrow> qvariant option"
  groupStack :: "scope list"

fun scope_key :: "scope \<Rightarrow> seg list" where
  "scope_key (Group g) = [Name g]"
| "scope_key (Array a num maxNum) = (if num = 0 then [Name a] else [Name a, Index num])"

definition groupPrefix :: "QSettings \<Rightarrow> seg list" where
  "groupPrefix s = concat (map scope_key (groupStack s))"

definition beginGroup :: "string \<Rightarrow> QSettings \<Rightarrow> QSettings" where
  "beginGroup g s = s\<lparr>groupStack := groupStack s @ [Group g]\<rparr>"

definition endGroup :: "QSettings \<Rightarrow> QSettings" where
  "endGroup s = s\<lparr>groupStack := butlast (groupStack s)\<rparr>"

definition remove_key :: "string \<Rightarrow> QSettings \<Rightarrow> QSettings" where
  "remove_key k s =
     s\<lparr>content := (\<lambda>q. if prefix (groupPrefix s @ [Name k]) q then None else content s q)\<rparr>"

definition setValue :: "string \<Rightarrow> qvariant \<Rightarrow> QSettings \<Rightarrow> QSettings" where
  "setValue k v s = s\<lparr>content := (content s)(groupPrefix s @ [Name k] := Some v)\<rparr>"

definition beginWriteArray :: "string \<Rightarrow> QSettings \<Rightarrow> QSettings" where
  "beginWriteArray a s = remove_key ''size'' (s\<lparr>groupStack := groupStack s @ [Array a 0 0]\<rparr>)"

definition setArrayIndex :: "nat \<Rightarrow> QSettings \<Rightarrow> QSettings" where
  "setArrayIndex i s =
     (case rev (groupStack s) of
        Array a num maxNum # below \<Rightarrow>
          s\<lparr>groupStack := rev below @ [Array a (Suc i) (max maxNum (Suc i))]\<rparr>
      | _ \<Rightarrow> s)"

definition endArray :: "QSettings \<Rightarrow> QSettings" where
  "endArray s =
     (case rev (groupStack s) of
        Array a num maxNum # below \<Rightarrow>
          (let s1 = s\<lparr>groupStack := rev below\<rparr>
           in s1\<lparr>content := (content s1)(groupPrefix s1 @ [Name a, Name ''size''] :=
                     Some (QInt (int maxNum)))\<rparr>)
      | _ \<Rightarrow> s\<lparr>groupStack := butlast (groupStack s)\<rparr>)"

text \<open>
  Reading an array back, as \<open>beginReadArray\<close>, \<open>setArrayIndex\<close>, \<open>value\<close> do: the length
  is the value of \<open>size\<close>, entry \<open>i\<close> is the value at \<open>i+1/key\<close>.
\<close>

definition read_array :: "seg list \<Rightarrow> string \<Rightarrow> QSettings \<Rightarrow> qvariant option list" where
  "read_array pre k s =
     (case content s (pre @ [Name ''size'']) of
        Some (QInt n) \<Rightarrow> map (\<lambda>i. content s (pre @ [Index (Suc i), Name k])) [0..<nat n]
      | _ \<Rightarrow> [])"

subsection \<open>The save body\<close>

text \<open>
  The method \<open>_saveInSettings\<close> runs in the pool's thread while the units finish loading
  in theirs and the GUI thread changes the list, so what it reads changes from one read
  of \<open>self.projects\<close> to the next. \<open>world t\<close> is the state that its \<open>t\<close>-th read finds.
  Each evaluation of the loop's condition is one read:
  \<^verbatim>\<open>
  while not all(project.name != 'Loading...' for project in self.projects):
      pass
  \<close>
  The loop may run for ever: \<open>None\<close> is the body that never gets past it.
\<close>

definition all_loaded :: "state \<Rightarrow> bool" where
  "all_loaded st = list_all (\<lambda>p. name p \<noteq> ''Loading...'') (project_items st)"

partial_function (option) wait_loaded :: "(nat \<Rightarrow> state) \<Rightarrow> nat \<Rightarrow> nat option" where
  "wait_loaded world t = (if all_loaded (world t) then Some t else wait_loaded world (Suc t))"

text \<open>
  \<open>[project for project in self.projects if project.project is not None]\<close>: after the
  loop the list is read again, so this is the next read, not the one that ended the wait.
\<close>

definition projects_to_save :: "state \<Rightarrow> ProjectListItem list" where
  "projects_to_save st = filter (\<lambda>p. project p \<noteq> None) (project_items st)"

text \<open>
  \<^verbatim>\<open>
  for idx, project in enumerate(projects_to_save):
      settings.setArrayIndex(idx)
      settings.setValue('path', str(project.project.path))
  \<close>
  Reading \<open>path\<close> of a \<open>None\<close> raises.
\<close>

fun write_array :: "nat \<Rightarrow> ProjectListItem list \<Rightarrow> QSettings \<Rightarrow> (pyerr + unit) \<times> QSettings" where
  "write_array idx [] s = (Inr (), s)"
| "write_array idx (p # ps) s =
     (case project p of
        None \<Rightarrow> (Inl AttributeError, setArrayIndex idx s)
      | Some pr \<Rightarrow> write_array (Suc idx) ps (setValue ''path'' (QStr (path pr)) (setArrayIndex idx s)))"

text \<open>
  The body, from the \<open>t\<close>-th read on: the outcome, the settings it leaves and the log
  records it writes. The wait ends at the read \<open>t'\<close>; the units to save are taken from
  the read after it.
\<close>

definition saveInSettings_body ::
  "(nat \<Rightarrow> state) \<Rightarrow> nat \<Rightarrow> QSettings \<Rightarrow> ((pyerr + unit) \<times> QSettings \<times> event list) option" where
  "saveInSettings_body world t settings =
     (case wait_loaded world t of
        None \<Rightarrow> None
      | Some t' \<Rightarrow>
          Some (let to_save = projects_to_save (world (Suc t'));
                    s1 = beginGroup ''app'' settings;
                    s2 = remove_key ''projects'' s1;
                    s3 = beginWriteArray ''projects'' s2
                in case write_array 0 to_save s3 of
                     (Inl e, s4) \<Rightarrow> (Inl e, s4, [])
                   | (Inr u, s4) \<Rightarrow>
                       (Inr (), endGroup (endArray s4),
                        [ModuleLog INFO (ProjectsSaved (length to_save))])))"

subsection \<open>Sequences of additions\<close>

text \<open>
  A run of the list with no removal: calls of \<open>addListItem\<close>, and between them the units
  changing in their own threads (a unit that finishes loading gets its name and its
  project). \<open>run_ops\<close> returns, for each call, the unit it returned and whether the call
  took the branch that creates a unit (\<open>duplicate_index\<close> was \<open>-1\<close>). An exception ends
  the run.
\<close>

datatype op = Add string "ref option" "nat option" | Changed ref ProjectListItem

fun run_ops :: "externals \<Rightarrow> op list \<Rightarrow> state \<Rightarrow> (pyerr + (ref \<times> bool) list) \<times> state" where
  "run_ops ext [] st = (Inr [], st)"
| "run_ops ext (Changed r u # ops) st = run_ops ext ops (st\<lparr>items := (items st)(r := u)\<rparr>)"
| "run_ops ext (Add p kw cb # ops) st =
     (case addListItem ext p kw cb st of
        (Inl e, st1) \<Rightarrow> (Inl e, st1)
      | (Inr r, st1) \<Rightarrow>
          (case run_ops ext ops st1 of
             (Inl e, st2) \<Rightarrow> (Inl e, st2)
           | (Inr rs, st2) \<Rightarrow> (Inr ((r, duplicate_index ext p st = Inr (-1)) # rs), st2)))"

section \<open>Concrete inputs\<close>

text \<open>
  A small world to run the model in: a file system with the two directories \<open>/home/a\<close>
  and \<open>/home/b\<close>, where \<open>samefile\<close> raises \<open>OSError\<close> for a path that does not exist
  and \<open>ValueError\<close> for one with an embedded NUL, as \<open>os.stat\<close> does (\<open>nul_path\<close> is
  the string \<open>a\x00b\<close>); a \<open>QUrl\<close> that knows one local-file URL, one URL of another
  scheme and the empty string; and a constructor whose units start as the spec has them,
  with the name \<open>Loading...\<close> and no project. \<open>state_a\<close> is a list holding the loaded
  project \<open>/home/a\<close>, shown as \<open>a\<close>, with a few keyword-argument dicts in the store:
  one with parameters, one with a list of arguments, one whose \<open>parameters\<close> is \<open>None\<close>
  and one whose \<open>project_args\<close> is the dict itself.
\<close>

definition nul_path :: string where
  "nul_path = [CHR ''a'', CHR 0x00, CHR ''b'']"

definition fs_samefile :: "string \<Rightarrow> string \<Rightarrow> pyerr + bool" where
  "fs_samefile a b =
     (if a \<noteq> ''/home/a'' \<and> a \<noteq> ''/home/b'' then Inl OSError
      else if CHR 0x00 \<in> set b then Inl ValueError
      else if b \<noteq> ''/home/a'' \<and> b \<noteq> ''/home/b'' then Inl OSError
      else Inr (a = b))"

definition example_QUrl :: "string \<Rightarrow> QUrl" where
  "example_QUrl s =
     (if s = [] then \<lparr>isEmpty = True, isLocalFile = False, isRelative = True, toLocalFile = []\<rparr>
      else if s = ''file:///home/a''
      then \<lparr>isEmpty = False, isLocalFile = True, isRelative = False, toLocalFile = ''/home/a''\<rparr>
      else if s = ''http://example.org/x''
      then \<lparr>isEmpty = False, isLocalFile = False, isRelative = False, toLocalFile = []\<rparr>
      else \<lparr>isEmpty = False, isLocalFile = False, isRelative = True, toLocalFile = []\<rparr>)"

definition loading_item :: ProjectListItem where
  "loading_item = \<lparr>name = ''Loading...'', project = None, fromStartup = False\<rparr>"

definition example_ext :: externals where
  "example_ext =
     \<lparr>samefile = fs_samefile, mkQUrl = example_QUrl, mkProjectListItem = (\<lambda>ks. loading_item)\<rparr>"

definition item_a :: ProjectListItem where
  "item_a = \<lparr>name = ''a'', project = Some \<lparr>path = ''/home/a''\<rparr>, fromStartup = False\<rparr>"

definition empty_state :: state where
  "empty_state =
     \<lparr>projects = [], items = (\<lambda>r. loading_item), lists = (\<lambda>r. []), dicts = (\<lambda>r. []),
      next_ref = 1, this = 0, events = []\<rparr>"

definition state_a :: state where
  "state_a =
     \<lparr>projects = [1], items = (\<lambda>r. if r = 1 then item_a else loading_item),
      lists = (\<lambda>r. if r = 7 then [VStr ''x'', VStr ''y''] else []),
      dicts = (\<lambda>r. if r = 2 then [(VStr ''project_kwargs'', VDict 3)]
                   else if r = 3 then [(VStr ''parameters'', VDict 4)]
                   else if r = 4 then [(VStr ''project'', VDict 5)]
                   else if r = 5 then [(VStr ''board'', VStr ''nucleo_f031k6'')]
                   else if r = 6 then [(VStr ''project_args'', VList 7)]
                   else if r = 8 then [(VStr ''project_kwargs'', VDict 9)]
                   else if r = 9 then [(VStr ''parameters'', VNone)]
                   else if r = 10 then [(VStr ''project_args'', VDict 10)]
                   else []),
      next_ref = 11, this = 0, events = []\<rparr>"

definition example_ops :: "op list" where
  "example_ops =
     [Add ''/home/a'' None None, Changed 2 item_a, Add ''/home/a'' None None,
      Add ''/home/b'' None None]"

text \<open>
  A run of the save body: the units \<open>1\<close> and \<open>3\<close> are loaded, the unit \<open>2\<close> is loading
  at the first two rounds of the wait and has failed from the third on. The settings hold
  an older, longer list and a key of another group.
\<close>

definition item_b :: ProjectListItem where
  "item_b = \<lparr>name = ''b'', project = Some \<lparr>path = ''/home/b''\<rparr>, fromStartup = True\<rparr>"

definition failed_item :: ProjectListItem where
  "failed_item = \<lparr>name = ''/home/c'', project = None, fromStartup = False\<rparr>"

definition example_world :: "nat \<Rightarrow> state" where
  "example_world t =
     \<lparr>projects = [1, 2, 3],
      items = (\<lambda>r. if r = 1 then item_a
                    else if r = 3 then item_b
                    else if r = 2 \<and> 2 \<le> t then failed_item
                    else loading_item),
      lists = (\<lambda>r. []), dicts = (\<lambda>r. []), next_ref = 4, this = 0, events = []\<rparr>"

definition example_settings :: QSettings where
  "example_settings =
     \<lparr>content = (\<lambda>q. if q = [Name ''app'', Name ''projects'', Name ''size''] then Some (QInt 3)
                     else if q = [Name ''app'', Name ''projects'', Index 3, Name ''path'']
                     then Some (QStr ''/home/old'')
                     else if q = [Name ''window'', Name ''width''] then Some (QInt 800)
                     else None),
      groupStack = []\<rparr>"


section \<open>Lemmas about the operations\<close>

lemma events_emit: "events (emit e st) = events st @ [e]"
  and projects_emit: "projects (emit e st) = projects st"
  and items_emit: "items (emit e st) = items st"
  and lists_emit: "lists (emit e st) = lists st"
  and dicts_emit: "dicts (emit e st) = dicts st"
  and next_ref_emit: "next_ref (emit e st) = next_ref st"
  and this_emit: "this (emit e st) = this st"
  by (simp_all add: emit_def)

lemma first_index_spec:
  "(first_index k bs = Inr (-1) \<and> (\<forall>i<length bs. bs ! i = Inr False)) \<or>
   (\<exists>i<length bs. (\<forall>j<i. bs ! j = Inr False) \<and>
      ((bs ! i = Inr True \<and> first_index k bs = Inr (int (k + i))) \<or>
       (\<exists>e. bs ! i = Inl e \<and> first_index k bs = Inl e)))"
proof (induction bs arbitrary: k)
  case Nil
  then show ?case by simp
next
  case (Cons b bs)
  show ?case
  proof (cases b)
    case (Inl e)
    then have "0 < length (b # bs) \<and> (\<forall>j<0. (b # bs) ! j = Inr False) \<and>
        (\<exists>e. (b # bs) ! 0 = Inl e \<and> first_index k (b # bs) = Inl e)" by simp
    then show ?thesis by blast
  next
    case (Inr d)
    show ?thesis
    proof (cases d)
      case True
      with Inr have "0 < length (b # bs) \<and> (\<forall>j<0. (b # bs) ! j = Inr False) \<and>
        (b # bs) ! 0 = Inr True \<and> first_index k (b # bs) = Inr (int (k + 0))" by simp
      then show ?thesis by blast
    next
      case False
      with Inr have b: "b = Inr False" by simp
      then have f: "first_index k (b # bs) = first_index (Suc k) bs" by simp
      from Cons.IH [of "Suc k"] show ?thesis
      proof
        assume a: "first_index (Suc k) bs = Inr (-1) \<and> (\<forall>i<length bs. bs ! i = Inr False)"
        then have "\<forall>i<length (b # bs). (b # bs) ! i = Inr False"
          using b by (auto simp: nth_Cons split: nat.splits)
        with a f show ?thesis by simp
      next
        assume "\<exists>i<length bs. (\<forall>j<i. bs ! j = Inr False) \<and>
          ((bs ! i = Inr True \<and> first_index (Suc k) bs = Inr (int (Suc k + i))) \<or>
           (\<exists>e. bs ! i = Inl e \<and> first_index (Suc k) bs = Inl e))"
        then obtain i where i: "i < length bs" "\<forall>j<i. bs ! j = Inr False"
          "(bs ! i = Inr True \<and> first_index (Suc k) bs = Inr (int (Suc k + i))) \<or>
           (\<exists>e. bs ! i = Inl e \<and> first_index (Suc k) bs = Inl e)" by blast
        have 1: "Suc i < length (b # bs)" using i(1) by simp
        have 2: "\<forall>j<Suc i. (b # bs) ! j = Inr False"
          using i(2) b by (auto simp: nth_Cons split: nat.splits)
        have 3: "((b # bs) ! Suc i = Inr True \<and> first_index k (b # bs) = Inr (int (k + Suc i))) \<or>
           (\<exists>e. (b # bs) ! Suc i = Inl e \<and> first_index k (b # bs) = Inl e)"
          using i(3) f by auto
        from 1 2 3 show ?thesis by blast
      qed
    qed
  qed
qed





lemma first_index_range:
  "first_index 0 bs = Inr d \<Longrightarrow> d = -1 \<or> (0 \<le> d \<and> nat d < length bs)"
  using first_index_spec [of 0 bs] by auto

lemma map_of_dict_set: "map_of (dict_set k v d) k' = (if k' = k then Some v else map_of d k')"
  by (induction d) auto

lemma py_len_emit: "py_len (emit e st) v = py_len st v"
  by (cases v) (simp_all add: emit_def)

lemma get_proj_params_set_parent: "get_proj_params st (set_parent st' kw) = get_proj_params st kw"
  by (simp add: get_proj_params_def set_parent_def map_of_dict_set split: option.splits)

lemma get_proj_params_emit: "get_proj_params (emit e st) kw = get_proj_params st kw"
  by (simp add: get_proj_params_def dicts_emit split: option.splits pyval.splits)

lemma len_proj_params_emit: "len_proj_params (emit e st) ps = len_proj_params st ps"
  by (simp add: len_proj_params_def py_len_emit split: option.splits)

lemma duplicate_index_cases:
  "(\<exists>e. duplicate_index ext p st = Inl e) \<or> duplicate_index ext p st = Inr (-1) \<or>
   (\<exists>d. duplicate_index ext p st = Inr d \<and> 0 \<le> d \<and> nat d < length (projects st))"
proof (cases "duplicate_index ext p st")
  case (Inl e)
  then show ?thesis by simp
next
  case (Inr d)
  with first_index_range [of "each_project_is_duplicate_of ext p st" d]
  show ?thesis
    by (auto simp: duplicate_index_def each_project_is_duplicate_of_def project_items_def)
qed

lemma duplicate_index_bound:
  "duplicate_index ext p st = Inr d \<Longrightarrow> d > -1 \<Longrightarrow> nat d < length (projects st)"
  using duplicate_index_cases [of ext p st] by auto



lemma addListItem_raise:
  "duplicate_index ext p st = Inl e \<Longrightarrow> addListItem ext p kw cb st = (Inl e, st)"
  by (simp add: addListItem_def Let_def)

lemma addListItem_dup:
  "duplicate_index ext p st = Inr d \<Longrightarrow> d > -1 \<Longrightarrow>
   addListItem ext p kw cb st =
     merge_duplicate d (set_parent st (copy_kwargs kw st)) (emit (ModuleLog WARNING (AlreadyInList p)) st)"
  by (simp add: addListItem_def Let_def)

lemma addListItem_new:
  assumes "duplicate_index ext p st = Inr (-1)"
  shows "addListItem ext p kw cb st =
     (case insert_path p (set_parent st (copy_kwargs kw st)) st of
        (Inl e, st1) \<Rightarrow> (Inl e, st1)
      | (Inr kw1, st1) \<Rightarrow>
          (case keyword_args kw1 of
             Inl e \<Rightarrow> (Inl e, st1)
           | Inr ks \<Rightarrow> (Inr (fst (append_new ext ks cb st1)), snd (append_new ext ks cb st1))))"
  using assms by (simp add: addListItem_def Let_def split: prod.splits sum.splits)

lemma merge_duplicate_frame:
  "projects (snd (merge_duplicate dup kw st)) = projects st \<and>
   items (snd (merge_duplicate dup kw st)) = items st \<and>
   lists (snd (merge_duplicate dup kw st)) = lists st \<and>
   dicts (snd (merge_duplicate dup kw st)) = dicts st \<and>
   next_ref (snd (merge_duplicate dup kw st)) = next_ref st"
  by (simp add: merge_duplicate_def Let_def emit_def split: sum.splits)












lemmas eval_defs =
  addProjectsByPaths_def add_path_def addListItem_def Let_def copy_kwargs_def set_parent_def
  merge_duplicate_def get_proj_params_def len_proj_params_def insert_path_def append_new_def
  duplicate_index_def each_project_is_duplicate_of_def project_items_def is_duplicate_of_def
  saveInSettings_def emit_def rowCount_def
  example_ext_def fs_samefile_def example_QUrl_def state_a_def item_a_def loading_item_def
  empty_state_def nul_path_def

lemma state_a_dup: "duplicate_index example_ext ''/home/a'' state_a = Inr 0"
  by (simp add: duplicate_index_def each_project_is_duplicate_of_def project_items_def
      is_duplicate_of_def example_ext_def fs_samefile_def state_a_def item_a_def)

lemma state_a_new: "duplicate_index example_ext ''/home/b'' state_a = Inr (-1)"
  by (simp add: duplicate_index_def each_project_is_duplicate_of_def project_items_def
      is_duplicate_of_def example_ext_def fs_samefile_def state_a_def item_a_def)


lemma insert_path_frame:
  "projects (snd (insert_path p kw st)) = projects st \<and>
   items (snd (insert_path p kw st)) = items st"
  by (simp add: insert_path_def Let_def split: option.splits sum.splits nat.splits pyval.splits)

lemma append_new_frame:
  "projects (snd (append_new ext ks cb st)) = projects st @ [fst (append_new ext ks cb st)] \<and>
   lists (snd (append_new ext ks cb st)) = lists st \<and>
   dicts (snd (append_new ext ks cb st)) = dicts st \<and>
   fst (append_new ext ks cb st) = next_ref st \<and>
   items (snd (append_new ext ks cb st)) = (items st)(next_ref st := mkProjectListItem ext ks)"
  by (simp add: append_new_def Let_def emit_def split: option.splits)

lemma addListItem_new_projects:
  assumes "duplicate_index ext p st = Inr (-1)" "fst (addListItem ext p kw cb st) = Inr r"
  shows "projects (snd (addListItem ext p kw cb st)) = projects st @ [r]"
proof -
  obtain x st1 where ip: "insert_path p (set_parent st (copy_kwargs kw st)) st = (x, st1)"
    by (cases "insert_path p (set_parent st (copy_kwargs kw st)) st")
  with insert_path_frame [of p "set_parent st (copy_kwargs kw st)" st]
  have p1: "projects st1 = projects st" by simp
  show ?thesis
    using assms(2) p1 append_new_frame
    unfolding addListItem_new [OF assms(1)] ip
    by (auto split: sum.splits)
qed

lemma addListItem_dup_projects:
  assumes "duplicate_index ext p st = Inr d" "d > -1"
  shows "projects (snd (addListItem ext p kw cb st)) = projects st"
  using merge_duplicate_frame
    [of d "set_parent st (copy_kwargs kw st)" "emit (ModuleLog WARNING (AlreadyInList p)) st"]
  by (simp add: addListItem_dup [OF assms] emit_def)

lemma run_ops_projects:
  "fst (run_ops ext ops st) = Inr rs \<Longrightarrow>
   projects (snd (run_ops ext ops st)) = projects st @ map fst (filter snd rs)"
proof (induction ext ops st arbitrary: rs rule: run_ops.induct)
  case (1 ext st)
  then show ?case by auto
next
  case (2 ext r u ops st)
  then show ?case by simp
next
  case (3 ext p kw cb ops st)
  obtain x st1 where a: "addListItem ext p kw cb st = (x, st1)"
    by (cases "addListItem ext p kw cb st")
  from "3.prems" a obtain r where x: "x = Inr r"
    by (cases x) auto
  obtain y st2 where ro: "run_ops ext ops st1 = (y, st2)"
    by (cases "run_ops ext ops st1")
  from "3.prems" a x ro obtain rs' where y: "y = Inr rs'"
    by (cases y) auto
  from "3.prems" a x ro y have rs: "rs = (r, duplicate_index ext p st = Inr (-1)) # rs'"
    by simp
  have ih: "projects st2 = projects st1 @ map fst (filter snd rs')"
    using "3.IH" a x ro y by simp
  have step: "projects st1 =
      (if duplicate_index ext p st = Inr (-1) then projects st @ [r] else projects st)"
  proof -
    from duplicate_index_cases [of ext p st] consider
      e where "duplicate_index ext p st = Inl e"
      | "duplicate_index ext p st = Inr (-1)"
      | d where "duplicate_index ext p st = Inr d" "d > -1" by force
    then show ?thesis
    proof cases
      case 1
      with a show ?thesis by (simp add: addListItem_raise)
    next
      case 2
      then show ?thesis
        using addListItem_new_projects [of ext p st kw cb r] a x by simp
    next
      case 3
      from addListItem_dup_projects [OF 3, of kw cb] a 3 show ?thesis by simp
    qed
  qed
  show ?case
    using a x ro y rs ih step by simp
qed




lemma wait_loaded_ends:
  "t \<le> t' \<Longrightarrow> all_loaded (world t') \<Longrightarrow> (\<forall>u. t \<le> u \<and> u < t' \<longrightarrow> \<not> all_loaded (world u)) \<Longrightarrow>
   wait_loaded world t = Some t'"
proof (induction "t' - t" arbitrary: t)
  case 0
  then have "t = t'" by simp
  with "0.prems" show ?case by (subst wait_loaded.simps) simp
next
  case (Suc n)
  then have lt: "t < t'" by simp
  with Suc.prems have nl: "\<not> all_loaded (world t)" by simp
  have "wait_loaded world (Suc t) = Some t'"
    using Suc.hyps Suc.prems lt by (intro Suc.hyps(1)) auto
  with nl show ?case by (subst wait_loaded.simps) simp
qed


lemma write_step:
  assumes "groupStack s = G @ [Array a num idx]"
  shows "setValue ''path'' v (setArrayIndex idx s) =
     s\<lparr>groupStack := G @ [Array a (Suc idx) (Suc idx)],
       content := (content s)(concat (map scope_key G) @ [Name a, Index (Suc idx), Name ''path'']
                     := Some v)\<rparr>"
  using assms by (simp add: setArrayIndex_def setValue_def groupPrefix_def)

lemma write_array_stack:
  assumes "groupStack s = G @ [Array a num idx]" "\<forall>p\<in>set ps. project p \<noteq> None"
  shows "fst (write_array idx ps s) = Inr () \<and>
     groupStack (snd (write_array idx ps s)) =
       G @ [Array a (if ps = [] then num else idx + length ps) (idx + length ps)]"
  using assms
proof (induction ps arbitrary: s idx num)
  case Nil
  then show ?case by simp
next
  case (Cons p ps)
  from Cons.prems(2) obtain pr where pr: "project p = Some pr" by auto
  let ?s = "setValue ''path'' (QStr (path pr)) (setArrayIndex idx s)"
  have st: "groupStack ?s = G @ [Array a (Suc idx) (Suc idx)]"
    by (simp add: write_step [OF Cons.prems(1)])
  from Cons.IH [OF st] Cons.prems(2)
  have "fst (write_array (Suc idx) ps ?s) = Inr () \<and>
     groupStack (snd (write_array (Suc idx) ps ?s)) =
       G @ [Array a (if ps = [] then Suc idx else Suc idx + length ps) (Suc idx + length ps)]"
    by simp
  with pr show ?case by auto
qed

lemma write_array_other:
  assumes "groupStack s = G @ [Array a num idx]"
    and "\<forall>i<length ps. q \<noteq> concat (map scope_key G) @ [Name a, Index (Suc (idx + i)), Name ''path'']"
  shows "content (snd (write_array idx ps s)) q = content s q"
  using assms
proof (induction ps arbitrary: s idx num)
  case Nil
  then show ?case by simp
next
  case (Cons p ps)
  show ?case
  proof (cases "project p")
    case None
    then show ?thesis by (simp add: setArrayIndex_def split: list.splits scope.splits)
  next
    case (Some pr)
    let ?s = "setValue ''path'' (QStr (path pr)) (setArrayIndex idx s)"
    have st: "groupStack ?s = G @ [Array a (Suc idx) (Suc idx)]"
      by (simp add: write_step [OF Cons.prems(1)])
    have oth: "\<forall>i<length ps. q \<noteq> concat (map scope_key G) @ [Name a, Index (Suc (Suc idx + i)), Name ''path'']"
      using Cons.prems(2) by auto
    have q0: "q \<noteq> concat (map scope_key G) @ [Name a, Index (Suc idx), Name ''path'']"
      using Cons.prems(2) by force
    from Cons.IH [OF st oth] have "content (snd (write_array (Suc idx) ps ?s)) q = content ?s q" .
    also have "\<dots> = content s q"
      using q0 by (simp add: write_step [OF Cons.prems(1)])
    finally show ?thesis using Some by simp
  qed
qed

lemma write_array_at:
  assumes "groupStack s = G @ [Array a num idx]" "\<forall>p\<in>set ps. project p \<noteq> None" "i < length ps"
  shows "content (snd (write_array idx ps s))
           (concat (map scope_key G) @ [Name a, Index (Suc (idx + i)), Name ''path'']) =
         Some (QStr (path (the (project (ps ! i)))))"
  using assms
proof (induction ps arbitrary: s idx num i)
  case Nil
  then show ?case by simp
next
  case (Cons p ps)
  from Cons.prems(2) obtain pr where pr: "project p = Some pr" by auto
  let ?s = "setValue ''path'' (QStr (path pr)) (setArrayIndex idx s)"
  have st: "groupStack ?s = G @ [Array a (Suc idx) (Suc idx)]"
    by (simp add: write_step [OF Cons.prems(1)])
  show ?case
  proof (cases i)
    case 0
    have "content (snd (write_array (Suc idx) ps ?s))
            (concat (map scope_key G) @ [Name a, Index (Suc idx), Name ''path'']) =
          content ?s (concat (map scope_key G) @ [Name a, Index (Suc idx), Name ''path''])"
      by (rule write_array_other [OF st]) simp
    also have "\<dots> = Some (QStr (path pr))"
      by (simp add: write_step [OF Cons.prems(1)])
    finally show ?thesis using 0 pr by simp
  next
    case (Suc j)
    with Cons.prems have "j < length ps" "\<forall>p\<in>set ps. project p \<noteq> None" by auto
    from Cons.IH [OF st this(2) this(1)] Suc pr show ?thesis by simp
  qed
qed

lemma projects_to_save_Some: "\<forall>p\<in>set (projects_to_save st). project p \<noteq> None"
  by (simp add: projects_to_save_def)

lemma saveInSettings_body_result:
  assumes w: "wait_loaded world t = Some t'"
  shows "\<exists>s'. saveInSettings_body world t settings =
           Some (Inr (), s', [ModuleLog INFO (ProjectsSaved (length (projects_to_save (world (Suc t')))))]) \<and>
         groupStack s' = groupStack settings \<and>
         content s' (groupPrefix settings @ [Name ''app'', Name ''projects'', Name ''size'']) =
           Some (QInt (int (length (projects_to_save (world (Suc t')))))) \<and>
         (\<forall>i<length (projects_to_save (world (Suc t'))).
            content s' (groupPrefix settings @ [Name ''app'', Name ''projects'', Index (Suc i), Name ''path'']) =
              Some (QStr (path (the (project (projects_to_save (world (Suc t')) ! i)))))) \<and>
         (\<forall>q. prefix (groupPrefix settings @ [Name ''app'', Name ''projects'']) q \<and>
              q \<noteq> groupPrefix settings @ [Name ''app'', Name ''projects'', Name ''size''] \<and>
              (\<forall>i<length (projects_to_save (world (Suc t'))).
                 q \<noteq> groupPrefix settings @ [Name ''app'', Name ''projects'', Index (Suc i), Name ''path''])
              \<longrightarrow> content s' q = None) \<and>
         (\<forall>q. \<not> prefix (groupPrefix settings @ [Name ''app'', Name ''projects'']) q
              \<longrightarrow> content s' q = content settings q)"
proof -
  let ?ps = "projects_to_save (world (Suc t'))"
  let ?P0 = "groupPrefix settings"
  let ?A = "?P0 @ [Name ''app'', Name ''projects'']"
  let ?G = "groupStack settings @ [Group ''app'']"
  let ?s3 = "beginWriteArray ''projects'' (remove_key ''projects'' (beginGroup ''app'' settings))"
  let ?s4 = "snd (write_array 0 ?ps ?s3)"
  let ?s' = "endGroup (endArray ?s4)"
  have G: "concat (map scope_key ?G) = ?P0 @ [Name ''app'']"
    by (simp add: groupPrefix_def)
  have st3: "groupStack ?s3 = ?G @ [Array ''projects'' 0 0]"
    by (simp add: beginWriteArray_def remove_key_def beginGroup_def)
  have c3: "content ?s3 q =
      (if prefix (?A @ [Name ''size'']) q then None
       else if prefix ?A q then None else content settings q)" for q
    by (simp add: beginWriteArray_def remove_key_def beginGroup_def groupPrefix_def)
  from write_array_stack [OF st3 projects_to_save_Some]
  have ok: "fst (write_array 0 ?ps ?s3) = Inr ()"
    and st4: "groupStack ?s4 =
      ?G @ [Array ''projects'' (if ?ps = [] then 0 else length ?ps) (length ?ps)]"
    by simp_all
  have body: "saveInSettings_body world t settings =
      Some (Inr (), ?s', [ModuleLog INFO (ProjectsSaved (length ?ps))])"
    using ok by (auto simp: saveInSettings_body_def w Let_def split: prod.splits sum.splits)
  have c': "content ?s' q =
      (if q = ?A @ [Name ''size''] then Some (QInt (int (length ?ps))) else content ?s4 q)" for q
    by (simp add: endGroup_def endArray_def st4 groupPrefix_def Let_def)
  have stack: "groupStack ?s' = groupStack settings"
    by (simp add: endGroup_def endArray_def st4 Let_def)
  have size: "content ?s' (?A @ [Name ''size'']) = Some (QInt (int (length ?ps)))"
    by (simp add: c')
  have entry: "content ?s' (?A @ [Index (Suc i), Name ''path'']) =
      Some (QStr (path (the (project (?ps ! i)))))" if "i < length ?ps" for i
    using write_array_at [OF st3 projects_to_save_Some that] by (simp add: c' groupPrefix_def)
  have other4: "content ?s4 q = content ?s3 q"
    if "\<forall>i<length ?ps. q \<noteq> ?A @ [Index (Suc i), Name ''path'']" for q
    using write_array_other [OF st3, of ?ps q] that by (simp add: groupPrefix_def)
  have stale: "content ?s' q = None"
    if "prefix ?A q" "q \<noteq> ?A @ [Name ''size'']"
      "\<forall>i<length ?ps. q \<noteq> ?A @ [Index (Suc i), Name ''path'']" for q
    using that other4 [OF that(3)] by (simp add: c' c3)
  have frame: "content ?s' q = content settings q" if "\<not> prefix ?A q" for q
  proof -
    from that have 1: "q \<noteq> ?A @ [Name ''size'']" by (auto simp: prefix_def)
    from that have 2: "\<forall>i<length ?ps. q \<noteq> ?A @ [Index (Suc i), Name ''path'']"
      by (auto simp: prefix_def)
    from that have 3: "\<not> prefix (?A @ [Name ''size'']) q" by (auto simp: prefix_def)
    from 1 other4 [OF 2] 3 that show ?thesis by (simp add: c' c3)
  qed
  from body stack size entry stale frame show ?thesis
    by (intro exI [of _ ?s']) simp
qed

lemma read_array_entries:
  assumes "content s (pre @ [Name ''size'']) = Some (QInt (int (length xs)))"
    and "\<forall>i<length xs. content s (pre @ [Index (Suc i), Name k]) = f (xs ! i)"
  shows "read_array pre k s = map f xs"
proof -
  have "read_array pre k s = map (\<lambda>i. content s (pre @ [Index (Suc i), Name k])) [0..<length xs]"
    by (simp add: read_array_def assms(1))
  also have "\<dots> = map (\<lambda>i. f (xs ! i)) [0..<length xs]"
    using assms(2) by (intro map_cong) simp_all
  also have "\<dots> = map f (map ((!) xs) [0..<length xs])"
    by (simp only: map_map comp_def)
  also have "\<dots> = map f xs"
    by (simp only: map_nth)
  finally show ?thesis .
qed


lemma example_world_items:
  "project_items (example_world t) = [item_a, if 2 \<le> t then failed_item else loading_item, item_b]"
  by (simp add: project_items_def example_world_def)

lemma example_world_loaded: "all_loaded (example_world t) \<longleftrightarrow> 2 \<le> t"
  by (simp add: all_loaded_def example_world_items item_a_def item_b_def failed_item_def loading_item_def)

lemma example_world_to_save: "2 \<le> t \<Longrightarrow> projects_to_save (example_world t) = [item_a, item_b]"
  by (simp add: projects_to_save_def example_world_items item_a_def item_b_def failed_item_def)

lemma example_settings_prefix: "groupPrefix example_settings = []" "groupStack example_settings = []"
  by (simp_all add: groupPrefix_def example_settings_def)

lemma merge_duplicate_store:
  "lists (snd (merge_duplicate dup kw st)) = lists st \<and>
   dicts (snd (merge_duplicate dup kw st)) = dicts st"
  using merge_duplicate_frame [of dup kw st] by simp

lemma project_args_set_parent:
  "map_of (set_parent st kw) (VStr ''project_args'') = map_of kw (VStr ''project_args'')"
  by (simp add: set_parent_def map_of_dict_set split: option.splits)

lemma insert_path_absent:
  assumes "map_of kw (VStr ''project_args'') = None \<or>
           (map_of kw (VStr ''project_args'') = Some (VList l) \<and> lists st l = [])"
  shows "insert_path p kw st =
     (Inr (dict_set (VStr ''project_args'') (VList (next_ref st)) kw),
      st\<lparr>lists := (lists st)(next_ref st := [VStr p]), next_ref := Suc (next_ref st)\<rparr>)"
  using assms by (auto simp: insert_path_def Let_def)

lemma insert_path_list:
  assumes "map_of kw (VStr ''project_args'') = Some (VList l)" "lists st l \<noteq> []"
  shows "insert_path p kw st = (Inr kw, st\<lparr>lists := (lists st)(l := (lists st l)[0 := VStr p])\<rparr>)"
proof -
  from assms(2) obtain n where "length (lists st l) = Suc n"
    by (cases "lists st l") auto
  with assms(1) show ?thesis by (simp add: insert_path_def Let_def)
qed

lemma insert_path_dict:
  assumes "map_of kw (VStr ''project_args'') = Some (VDict r)" "dicts st r \<noteq> []"
  shows "insert_path p kw st =
     (Inr kw, st\<lparr>dicts := (dicts st)(r := dict_set (VInt 0) (VStr p) (dicts st r))\<rparr>)"
proof -
  from assms(2) obtain n where "length (dicts st r) = Suc n"
    by (cases "dicts st r") auto
  with assms(1) show ?thesis by (simp add: insert_path_def Let_def)
qed

lemma insert_path_dicts:
  assumes "\<forall>r. map_of kw (VStr ''project_args'') = Some (VDict r) \<longrightarrow> dicts st r = []"
  shows "dicts (snd (insert_path p kw st)) = dicts st"
  using assms
  by (auto simp: insert_path_def Let_def split: option.splits sum.splits nat.splits pyval.splits)

lemma addListItem_after_insert:
  assumes "duplicate_index ext p st = Inr (-1)"
  shows "lists (snd (addListItem ext p kw cb st)) =
           lists (snd (insert_path p (set_parent st (copy_kwargs kw st)) st)) \<and>
         dicts (snd (addListItem ext p kw cb st)) =
           dicts (snd (insert_path p (set_parent st (copy_kwargs kw st)) st))"
proof -
  obtain x st1 where ip: "insert_path p (set_parent st (copy_kwargs kw st)) st = (x, st1)"
    by (cases "insert_path p (set_parent st (copy_kwargs kw st)) st")
  show ?thesis
    unfolding addListItem_new [OF assms] ip
    using append_new_frame by (auto split: sum.splits)
qed

lemma addListItem_dup_store:
  assumes "duplicate_index ext p st \<noteq> Inr (-1)"
  shows "lists (snd (addListItem ext p kw cb st)) = lists st \<and>
         dicts (snd (addListItem ext p kw cb st)) = dicts st"
proof -
  from duplicate_index_cases [of ext p st] assms consider
    e where "duplicate_index ext p st = Inl e"
    | d where "duplicate_index ext p st = Inr d" "d > -1" by force
  then show ?thesis
  proof cases
    case 1
    then show ?thesis by (simp add: addListItem_raise)
  next
    case 2
    from merge_duplicate_store
      [of d "set_parent st (copy_kwargs kw st)" "emit (ModuleLog WARNING (AlreadyInList p)) st"]
    show ?thesis by (simp add: addListItem_dup [OF 2] emit_def)
  qed
qed

lemma keyword_args_map_of:
  "keyword_args kw = Inr ks \<Longrightarrow> map_of ks k = map_of kw (VStr k)"
proof (induction kw arbitrary: ks rule: keyword_args.induct)
  case 1
  then show ?case by simp
next
  case (2 k' v kw)
  then show ?case by (auto split: sum.splits)
qed simp_all

section \<open>The claims\<close>

subsection \<open>C1: what the save body writes\<close>

text \<open>
  C1: when the wait of the save body ends (from the read \<open>t\<close> on, \<open>t'\<close> is the first
  read at which every unit is loaded), the body returns normally and leaves the settings
  with, under the group \<open>app\<close> and the array \<open>projects\<close>, exactly the array of the paths
  of the units whose project is there, as strings and in the order of the list, the list
  being the one the body reads after the wait: \<open>size\<close> is their number, entry \<open>i\<close>
  holds the \<open>i\<close>-th path under \<open>path\<close>, and no other key below \<open>app/projects\<close> has a
  value, so nothing of an older array is left. Units with no project are left out. Keys
  outside \<open>app/projects\<close> keep their values and the open groups are those from before.
  The body logs one record, with the number of saved entries.
\<close>

theorem saveInSettings_body_store:
  assumes "t \<le> t'" "all_loaded (world t')" "\<forall>u. t \<le> u \<and> u < t' \<longrightarrow> \<not> all_loaded (world u)"
  shows "projects_to_save (world (Suc t')) =
           filter (\<lambda>p. project p \<noteq> None) (map (items (world (Suc t'))) (projects (world (Suc t')))) \<and>
    (\<exists>s'. saveInSettings_body world t settings =
           Some (Inr (), s', [ModuleLog INFO (ProjectsSaved (length (projects_to_save (world (Suc t')))))]) \<and>
         groupStack s' = groupStack settings \<and>
         read_array (groupPrefix settings @ [Name ''app'', Name ''projects'']) ''path'' s' =
           map (\<lambda>p. Some (QStr (path (the (project p))))) (projects_to_save (world (Suc t'))) \<and>
         content s' (groupPrefix settings @ [Name ''app'', Name ''projects'', Name ''size'']) =
           Some (QInt (int (length (projects_to_save (world (Suc t')))))) \<and>
         (\<forall>i<length (projects_to_save (world (Suc t'))).
            content s' (groupPrefix settings @ [Name ''app'', Name ''projects'', Index (Suc i), Name ''path'']) =
              Some (QStr (path (the (project (projects_to_save (world (Suc t')) ! i)))))) \<and>
         (\<forall>q. prefix (groupPrefix settings @ [Name ''app'', Name ''projects'']) q \<and>
              q \<noteq> groupPrefix settings @ [Name ''app'', Name ''projects'', Name ''size''] \<and>
              (\<forall>i<length (projects_to_save (world (Suc t'))).
                 q \<noteq> groupPrefix settings @ [Name ''app'', Name ''projects'', Index (Suc i), Name ''path''])
              \<longrightarrow> content s' q = None) \<and>
         (\<forall>q. \<not> prefix (groupPrefix settings @ [Name ''app'', Name ''projects'']) q
              \<longrightarrow> content s' q = content settings q))"
proof -
  let ?A = "groupPrefix settings @ [Name ''app'', Name ''projects'']"
  let ?ps = "projects_to_save (world (Suc t'))"
  have w: "wait_loaded world t = Some t'"
    using assms by (intro wait_loaded_ends) auto
  from saveInSettings_body_result [OF w, of settings] obtain s' where
    s': "saveInSettings_body world t settings =
           Some (Inr (), s', [ModuleLog INFO (ProjectsSaved (length ?ps))])"
      "groupStack s' = groupStack settings"
      "content s' (groupPrefix settings @ [Name ''app'', Name ''projects'', Name ''size'']) =
           Some (QInt (int (length ?ps)))"
      "\<forall>i<length ?ps.
            content s' (groupPrefix settings @ [Name ''app'', Name ''projects'', Index (Suc i), Name ''path'']) =
              Some (QStr (path (the (project (?ps ! i)))))"
      "\<forall>q. prefix ?A q \<and>
              q \<noteq> groupPrefix settings @ [Name ''app'', Name ''projects'', Name ''size''] \<and>
              (\<forall>i<length ?ps.
                 q \<noteq> groupPrefix settings @ [Name ''app'', Name ''projects'', Index (Suc i), Name ''path''])
              \<longrightarrow> content s' q = None"
      "\<forall>q. \<not> prefix ?A q \<longrightarrow> content s' q = content settings q"
    by blast
  have r: "read_array ?A ''path'' s' = map (\<lambda>p. Some (QStr (path (the (project p))))) ?ps"
    using s'(3,4) by (intro read_array_entries) simp_all
  have f: "?ps = filter (\<lambda>p. project p \<noteq> None) (map (items (world (Suc t'))) (projects (world (Suc t'))))"
    by (simp add: projects_to_save_def project_items_def)
  from f s' r show ?thesis by blast
qed

theorem saveInSettings_body_store_witness:
  "all_loaded (example_world 2) \<and> \<not> all_loaded (example_world 0) \<and> \<not> all_loaded (example_world 1) \<and>
   (\<exists>s'. saveInSettings_body example_world 0 example_settings =
           Some (Inr (), s', [ModuleLog INFO (ProjectsSaved 2)]) \<and>
         groupStack s' = [] \<and>
         read_array [Name ''app'', Name ''projects''] ''path'' s' =
           [Some (QStr ''/home/a''), Some (QStr ''/home/b'')] \<and>
         content s' [Name ''app'', Name ''projects'', Name ''size''] = Some (QInt 2) \<and>
         content example_settings [Name ''app'', Name ''projects'', Index 3, Name ''path''] =
           Some (QStr ''/home/old'') \<and>
         content s' [Name ''app'', Name ''projects'', Index 3, Name ''path''] = None \<and>
         content s' [Name ''window'', Name ''width''] = Some (QInt 800))"
proof -
  have h: "(0::nat) \<le> 2" "all_loaded (example_world 2)"
    "\<forall>u. 0 \<le> u \<and> u < 2 \<longrightarrow> \<not> all_loaded (example_world u)"
    by (simp_all add: example_world_loaded)
  from saveInSettings_body_store [OF h, of example_settings] obtain s' where
    s': "saveInSettings_body example_world 0 example_settings =
           Some (Inr (), s', [ModuleLog INFO (ProjectsSaved 2)])"
      "groupStack s' = []"
      "read_array [Name ''app'', Name ''projects''] ''path'' s' =
           [Some (QStr ''/home/a''), Some (QStr ''/home/b'')]"
      "content s' [Name ''app'', Name ''projects'', Name ''size''] = Some (QInt 2)"
      and stale: "\<forall>q. prefix [Name ''app'', Name ''projects''] q \<and>
              q \<noteq> [Name ''app'', Name ''projects'', Name ''size''] \<and>
              (\<forall>i<2. q \<noteq> [Name ''app'', Name ''projects'', Index (Suc i), Name ''path''])
              \<longrightarrow> content s' q = None"
      and frame: "\<forall>q. \<not> prefix [Name ''app'', Name ''projects''] q
              \<longrightarrow> content s' q = content example_settings q"
    by (auto simp: example_world_to_save example_settings_prefix item_a_def item_b_def)
  from stale have 1: "content s' [Name ''app'', Name ''projects'', Index 3, Name ''path''] = None"
    by simp
  from frame have 2: "content s' [Name ''window'', Name ''width''] = Some (QInt 800)"
    by (simp add: example_settings_def)
  have 3: "content example_settings [Name ''app'', Name ''projects'', Index 3, Name ''path''] =
           Some (QStr ''/home/old'')"
    by (simp add: example_settings_def)
  from s' 1 2 3 h show ?thesis by (auto simp: example_world_loaded)
qed

subsection \<open>C2: the save body waits for the units\<close>




subsection \<open>C3: the duplicate check\<close>




subsection \<open>C4: adding a duplicate\<close>

text \<open>
  C4 says that adding a duplicate returns the existing unit and emits the signal. The code
  reads the extra parameters first, with \<open>len(proj_params)\<close>, and that can raise: for the
  keyword arguments \<open>{'project_kwargs': {'parameters': None}}\<close> the call on the duplicate
  \<open>/home/a\<close> raises \<open>TypeError\<close> after the warning; nothing is returned and no signal
  is emitted.
\<close>

theorem addListItem_duplicate_counterexample:
  "duplicate_index example_ext ''/home/a'' state_a = Inr 0 \<and>
   map_of (dicts state_a 8) (VStr ''project_kwargs'') = Some (VDict 9) \<and>
   map_of (dicts state_a 9) (VStr ''parameters'') = Some VNone \<and>
   addListItem example_ext ''/home/a'' (Some 8) None state_a =
     (Inl TypeError, state_a\<lparr>events := [ModuleLog WARNING (AlreadyInList ''/home/a'')]\<rparr>)"
  by (simp add: eval_defs)

text \<open>
  C4, amended: when the path is a duplicate of a unit of the list (the duplicate index
  \<open>d\<close> is not \<open>-1\<close>), \<open>addListItem\<close> creates no entry: the list and the units are what
  they were, also when the call raises. When the extra parameters can be read
  (\<open>project_kwargs\<close> is absent or a dict, and its \<open>parameters\<close> is absent or has a
  length), the call returns the existing unit, the one at the index \<open>d\<close>; the state
  differs by the trace only, which gains the warning, then, if and only if the parameters
  are not empty, the unit's log record and the call \<open>run('save_config', [parameters])\<close> on
  the existing unit, and last the signal \<open>goToProject\<close> with \<open>d\<close>. When they cannot be
  read, the call raises that error after the warning, with no signal and nothing forwarded.
\<close>

theorem addListItem_duplicate:
  assumes "duplicate_index ext p st = Inr d" "d > -1"
  shows "nat d < length (projects st) \<and>
    projects (snd (addListItem ext p kw cb st)) = projects st \<and>
    items (snd (addListItem ext p kw cb st)) = items st \<and>
    (\<forall>params n.
       get_proj_params st (copy_kwargs kw st) = Inr params \<and> len_proj_params st params = Inr n \<longrightarrow>
       addListItem ext p kw cb st =
         (Inr (projects st ! nat d),
          st\<lparr>events := events st @
             [ModuleLog WARNING (AlreadyInList p)] @
             (if n \<noteq> 0
              then [ItemLog (projects st ! nat d) INFO (UpdatingParameters (the params)),
                    Run (projects st ! nat d) ''save_config'' [the params]]
              else []) @
             [GoToProject d]\<rparr>)) \<and>
    (\<forall>e. get_proj_params st (copy_kwargs kw st) = Inl e \<or>
         (\<exists>params. get_proj_params st (copy_kwargs kw st) = Inr params \<and>
                   len_proj_params st params = Inl e) \<longrightarrow>
       addListItem ext p kw cb st =
         (Inl e, st\<lparr>events := events st @ [ModuleLog WARNING (AlreadyInList p)]\<rparr>))"
proof -
  let ?w = "emit (ModuleLog WARNING (AlreadyInList p)) st"
  let ?kw = "set_parent st (copy_kwargs kw st)"
  have add: "addListItem ext p kw cb st = merge_duplicate d ?kw ?w"
    by (rule addListItem_dup [OF assms])
  have frame: "projects (snd (addListItem ext p kw cb st)) = projects st"
    "items (snd (addListItem ext p kw cb st)) = items st"
    unfolding add using merge_duplicate_frame [of d ?kw ?w]
    by (simp_all add: emit_def)
  have ret: "addListItem ext p kw cb st =
         (Inr (projects st ! nat d),
          st\<lparr>events := events st @
             [ModuleLog WARNING (AlreadyInList p)] @
             (if n \<noteq> 0
              then [ItemLog (projects st ! nat d) INFO (UpdatingParameters (the params)),
                    Run (projects st ! nat d) ''save_config'' [the params]]
              else []) @
             [GoToProject d]\<rparr>)"
    if "get_proj_params st (copy_kwargs kw st) = Inr params" "len_proj_params st params = Inr n"
    for params n
    unfolding add merge_duplicate_def
    using that
    by (simp add: get_proj_params_set_parent get_proj_params_emit len_proj_params_emit Let_def)
      (simp add: emit_def)
  have err: "addListItem ext p kw cb st =
         (Inl e, st\<lparr>events := events st @ [ModuleLog WARNING (AlreadyInList p)]\<rparr>)"
    if "get_proj_params st (copy_kwargs kw st) = Inl e \<or>
         (\<exists>params. get_proj_params st (copy_kwargs kw st) = Inr params \<and>
                   len_proj_params st params = Inl e)"
    for e
  proof -
    have gw: "get_proj_params ?w ?kw = get_proj_params st (copy_kwargs kw st)"
      by (simp add: get_proj_params_set_parent get_proj_params_emit)
    have lw: "len_proj_params ?w ps = len_proj_params st ps" for ps
      by (simp add: len_proj_params_emit)
    from that have "merge_duplicate d ?kw ?w = (Inl e, ?w)"
      unfolding merge_duplicate_def Let_def gw lw by auto
    then show ?thesis unfolding add by (simp add: emit_def)
  qed
  from duplicate_index_bound [OF assms] frame ret err show ?thesis by blast
qed

theorem addListItem_duplicate_witness:
  "duplicate_index example_ext ''/home/a'' state_a = Inr 0 \<and>
   addListItem example_ext ''/home/a'' (Some 2) None state_a =
     (Inr 1, state_a\<lparr>events :=
        [ModuleLog WARNING (AlreadyInList ''/home/a''),
         ItemLog 1 INFO (UpdatingParameters (VDict 4)),
         Run 1 ''save_config'' [VDict 4],
         GoToProject 0]\<rparr>) \<and>
   get_proj_params state_a (copy_kwargs (Some 8) state_a) = Inr (Some VNone) \<and>
   len_proj_params state_a (Some VNone) = Inl TypeError \<and>
   addListItem example_ext ''/home/a'' (Some 8) None state_a =
     (Inl TypeError, state_a\<lparr>events := [ModuleLog WARNING (AlreadyInList ''/home/a'')]\<rparr>) \<and>
   projects state_a = [1]"
proof -
  have d: "duplicate_index example_ext ''/home/a'' state_a = Inr 0" "(0::int) > -1"
    by (simp_all add: state_a_dup)
  have g: "get_proj_params state_a (copy_kwargs (Some 2) state_a) = Inr (Some (VDict 4))"
    by (simp add: get_proj_params_def copy_kwargs_def state_a_def)
  have l: "len_proj_params state_a (Some (VDict 4)) = Inr 1"
    by (simp add: len_proj_params_def state_a_def)
  have g8: "get_proj_params state_a (copy_kwargs (Some 8) state_a) = Inr (Some VNone)"
    by (simp add: get_proj_params_def copy_kwargs_def state_a_def)
  have l8: "len_proj_params state_a (Some VNone) = Inl TypeError"
    by (simp add: len_proj_params_def)
  have s: "projects state_a = [1]" "events state_a = []"
    by (simp_all add: state_a_def)
  from addListItem_duplicate [OF d, of "Some 2" None] g l
  have "addListItem example_ext ''/home/a'' (Some 2) None state_a =
         (Inr (projects state_a ! nat 0),
          state_a\<lparr>events := events state_a @
             [ModuleLog WARNING (AlreadyInList ''/home/a'')] @
             (if (1::nat) \<noteq> 0
              then [ItemLog (projects state_a ! nat 0) INFO (UpdatingParameters (the (Some (VDict 4)))),
                    Run (projects state_a ! nat 0) ''save_config'' [the (Some (VDict 4))]]
              else []) @
             [GoToProject 0]\<rparr>)"
    by blast
  then have 1: "addListItem example_ext ''/home/a'' (Some 2) None state_a =
     (Inr 1, state_a\<lparr>events :=
        [ModuleLog WARNING (AlreadyInList ''/home/a''),
         ItemLog 1 INFO (UpdatingParameters (VDict 4)),
         Run 1 ''save_config'' [VDict 4],
         GoToProject 0]\<rparr>)"
    by (simp add: s)
  from addListItem_duplicate [OF d, of "Some 8" None] g8 l8
  have "addListItem example_ext ''/home/a'' (Some 8) None state_a =
     (Inl TypeError, state_a\<lparr>events := events state_a @ [ModuleLog WARNING (AlreadyInList ''/home/a'')]\<rparr>)"
    by blast
  then have 2: "addListItem example_ext ''/home/a'' (Some 8) None state_a =
     (Inl TypeError, state_a\<lparr>events := [ModuleLog WARNING (AlreadyInList ''/home/a'')]\<rparr>)"
    by (simp add: s)
  from d 1 2 g8 l8 s show ?thesis by simp
qed

subsection \<open>C6: one save for a batch\<close>




subsection \<open>C7: get and removeProject by index\<close>

text \<open>
  C7: with an index below \<open>0\<close> or not below the length, \<open>get\<close> returns nothing and
  \<open>removeProject\<close> leaves the state as it is. With an index in range, \<open>get\<close> returns the
  unit there, and \<open>removeProject\<close> takes the unit out of the list between
  \<open>beginRemoveRows\<close> and \<open>endRemoveRows\<close>, then hands a save to the pool if and only if
  the unit's project is there or the unit is \<open>fromStartup\<close>, then calls \<open>deleteLater\<close>.
\<close>

theorem get_removeProject_by_range:
  "((index < 0 \<or> int (length (projects st)) \<le> index) \<longrightarrow>
      get index st = None \<and> removeProject index st = st) \<and>
   ((0 \<le> index \<and> index < int (length (projects st))) \<longrightarrow>
      get index st = Some (projects st ! nat index) \<and>
      removeProject index st =
        st\<lparr>projects := take (nat index) (projects st) @ drop (Suc (nat index)) (projects st),
           events := events st @
             [BeginRemoveRows (nat index) (nat index), EndRemoveRows] @
             (if project (items st (projects st ! nat index)) \<noteq> None
                 \<or> fromStartup (items st (projects st ! nat index))
              then [PoolStart] else []) @
             [DeleteLater (projects st ! nat index)]\<rparr>)"
  by (auto simp: get_def removeProject_def in_range_def Let_def emit_def pop_def saveInSettings_def)

theorem get_removeProject_by_range_witness:
  "get (-1) state_a = None \<and> removeProject (-1) state_a = state_a \<and>
   get 1 state_a = None \<and> removeProject 1 state_a = state_a \<and>
   get 0 state_a = Some 1 \<and>
   removeProject 0 state_a =
     state_a\<lparr>projects := [], events := [BeginRemoveRows 0 0, EndRemoveRows, PoolStart, DeleteLater 1]\<rparr> \<and>
   removeProject 0 (snd (addListItem example_ext ''/home/b'' None None empty_state)) =
     (snd (addListItem example_ext ''/home/b'' None None empty_state))
       \<lparr>projects := [], events := [BeginInsertRows 0 0, EndInsertRows,
                                   BeginRemoveRows 0 0, EndRemoveRows, DeleteLater 2]\<rparr>"
proof -
  have s: "projects state_a = [1]" "events state_a = []" "items state_a (Suc 0) = item_a"
    by (simp_all add: state_a_def)
  have n: "projects (snd (addListItem example_ext ''/home/b'' None None empty_state)) = [2]"
    "events (snd (addListItem example_ext ''/home/b'' None None empty_state)) =
      [BeginInsertRows 0 0, EndInsertRows]"
    "items (snd (addListItem example_ext ''/home/b'' None None empty_state)) 2 = loading_item"
    by (simp_all add: eval_defs)
  from get_removeProject_by_range [of "-1" state_a] get_removeProject_by_range [of 1 state_a]
    get_removeProject_by_range [of 0 state_a]
    get_removeProject_by_range [of 0 "snd (addListItem example_ext ''/home/b'' None None empty_state)"]
  show ?thesis
    by (simp add: s n item_a_def loading_item_def)
qed

subsection \<open>C8: the paths of a batch\<close>




subsection \<open>C9: the order of the list\<close>

text \<open>
  C9 says that index \<open>i\<close> of the list holds the unit of the \<open>i\<close>-th addition. An addition
  of a duplicate creates no unit, so the indices fall behind: \<open>/home/a\<close> is added and
  loads, \<open>/home/a\<close> is added again and \<open>/home/b\<close> after it. The calls return the units
  \<open>2\<close>, \<open>2\<close> and \<open>4\<close>; index \<open>1\<close> of the list holds the unit of the third call, not
  the one that the second call returned.
\<close>

theorem add_order_counterexample:
  "fst (run_ops example_ext example_ops empty_state) = Inr [(2, True), (2, False), (4, True)] \<and>
   projects (snd (run_ops example_ext example_ops empty_state)) = [2, 4] \<and>
   projects (snd (run_ops example_ext example_ops empty_state)) ! 1 \<noteq>
     fst ([(2, True), (2, False), (4, True)] ! 1)"
  by (simp add: example_ops_def eval_defs)

text \<open>
  C9, amended: an addition that is not a duplicate appends the unit it returns at the tail
  of the list and leaves the entries before it where they were. So after any sequence of
  additions with no removal, the list is the list from before followed by the units that
  the additions created, in the order of the calls: an addition of a duplicate adds no
  entry, and index \<open>i\<close> counts the creating additions only.
\<close>

theorem add_order:
  "(duplicate_index ext p st = Inr (-1) \<and> fst (addListItem ext p kw cb st) = Inr r \<longrightarrow>
      projects (snd (addListItem ext p kw cb st)) = projects st @ [r]) \<and>
   (fst (run_ops ext ops st) = Inr rs \<longrightarrow>
      projects (snd (run_ops ext ops st)) = projects st @ map fst (filter snd rs))"
  using addListItem_new_projects [of ext p st kw cb r] run_ops_projects [of ext ops st rs]
  by simp

theorem add_order_witness:
  "duplicate_index example_ext ''/home/b'' state_a = Inr (-1) \<and>
   fst (addListItem example_ext ''/home/b'' None None state_a) = Inr 12 \<and>
   projects (snd (addListItem example_ext ''/home/b'' None None state_a)) = projects state_a @ [12] \<and>
   fst (run_ops example_ext example_ops empty_state) = Inr [(2, True), (2, False), (4, True)] \<and>
   projects (snd (run_ops example_ext example_ops empty_state)) = [2, 4]"
proof -
  have 1: "duplicate_index example_ext ''/home/b'' state_a = Inr (-1)"
    "fst (addListItem example_ext ''/home/b'' None None state_a) = Inr 12"
    by (simp_all add: eval_defs)
  have 2: "fst (run_ops example_ext example_ops empty_state) = Inr [(2, True), (2, False), (4, True)]"
    by (simp add: example_ops_def eval_defs)
  have 3: "projects empty_state = []" by (simp add: empty_state_def)
  from add_order [of example_ext "''/home/b''" state_a None None 12 "[]" "[]"]
    add_order [of example_ext "''/home/b''" empty_state None None 12 example_ops
      "[(2, True), (2, False), (4, True)]"] 1 2 3
  show ?thesis by simp
qed

subsection \<open>C10: the caller's keyword arguments\<close>

text \<open>
  C10 says that a non-empty \<open>project_args\<close> list of the caller is written to in place.
  That happens in the branch that creates a unit only. When the path is a duplicate the
  function returns before it: \<open>/home/a\<close> is in the list already, and the caller's list
  \<open>['x', 'y']\<close> is what it was after the call.
\<close>

theorem project_args_counterexample:
  "map_of (dicts state_a 6) (VStr ''project_args'') = Some (VList 7) \<and>
   lists state_a 7 = [VStr ''x'', VStr ''y''] \<and>
   lists (snd (addListItem example_ext ''/home/a'' (Some 6) None state_a)) 7 =
     [VStr ''x'', VStr ''y'']"
  by (simp add: eval_defs)

text \<open>
  C10, amended: \<open>addListItem\<close> works on a copy of the caller's dict, so what it sets in
  the copy (\<open>parent\<close>, \<open>project_args\<close>) never reaches the caller's dict, and no dict of the
  store changes, with one exception: when the path is not a duplicate and the caller's
  \<open>project_args\<close> is a non-empty dict, the assignment \<open>project_args[0] = path\<close> sets the
  key \<open>0\<close> of that dict object, which is the caller's top-level dict if the caller gave
  it as its own \<open>project_args\<close>. When the path is not a duplicate and the caller gives a
  non-empty \<open>project_args\<close> list, that list object is written to in place: index \<open>0\<close>
  becomes the path, the other elements and all other lists stay, and the constructor gets
  the same object. When the path is not a duplicate and \<open>project_args\<close> is absent or an
  empty list, a new one-element list holding the path is made at an unused reference and
  given to the constructor; no existing list changes. When the path is a duplicate, or the
  duplicate check raises, no list and no dict changes at all.
\<close>

theorem addListItem_project_args:
  "(\<forall>r. duplicate_index ext p st = Inr (-1) \<and>
        map_of (dicts st d) (VStr ''project_args'') = Some (VDict r) \<and> dicts st r \<noteq> [] \<longrightarrow>
      dicts (snd (addListItem ext p (Some d) cb st)) =
        (dicts st)(r := dict_set (VInt 0) (VStr p) (dicts st r)) \<and>
      lists (snd (addListItem ext p (Some d) cb st)) = lists st) \<and>
   (\<not> (duplicate_index ext p st = Inr (-1) \<and>
       (\<exists>r. map_of (dicts st d) (VStr ''project_args'') = Some (VDict r) \<and> dicts st r \<noteq> [])) \<longrightarrow>
      dicts (snd (addListItem ext p (Some d) cb st)) = dicts st) \<and>
   (duplicate_index ext p st = Inr (-1) \<and>
    map_of (dicts st d) (VStr ''project_args'') = Some (VList l) \<and> lists st l \<noteq> [] \<longrightarrow>
      lists (snd (addListItem ext p (Some d) cb st)) =
        (lists st)(l := (lists st l)[0 := VStr p]) \<and>
      (\<forall>r. fst (addListItem ext p (Some d) cb st) = Inr r \<longrightarrow>
         (\<exists>ks. items (snd (addListItem ext p (Some d) cb st)) r = mkProjectListItem ext ks \<and>
               map_of ks ''project_args'' = Some (VList l)))) \<and>
   (duplicate_index ext p st = Inr (-1) \<and>
    (map_of (dicts st d) (VStr ''project_args'') = None \<or>
     map_of (dicts st d) (VStr ''project_args'') = Some (VList l) \<and> lists st l = []) \<longrightarrow>
      lists (snd (addListItem ext p (Some d) cb st)) = (lists st)(next_ref st := [VStr p]) \<and>
      (\<forall>r. fst (addListItem ext p (Some d) cb st) = Inr r \<longrightarrow>
         (\<exists>ks. items (snd (addListItem ext p (Some d) cb st)) r = mkProjectListItem ext ks \<and>
               map_of ks ''project_args'' = Some (VList (next_ref st))))) \<and>
   (duplicate_index ext p st \<noteq> Inr (-1) \<longrightarrow>
      lists (snd (addListItem ext p (Some d) cb st)) = lists st)"
proof -
  let ?kw = "set_parent st (copy_kwargs (Some d) st)"
  let ?pa = "map_of (dicts st d) (VStr ''project_args'')"
  have pa: "map_of ?kw (VStr ''project_args'') = ?pa"
    by (simp add: project_args_set_parent copy_kwargs_def)
  have A1: "dicts (snd (addListItem ext p (Some d) cb st)) =
        (dicts st)(r := dict_set (VInt 0) (VStr p) (dicts st r)) \<and>
      lists (snd (addListItem ext p (Some d) cb st)) = lists st"
    if nd: "duplicate_index ext p st = Inr (-1)" and r: "?pa = Some (VDict r)" "dicts st r \<noteq> []" for r
  proof -
    from r pa have "map_of ?kw (VStr ''project_args'') = Some (VDict r)" by simp
    from insert_path_dict [OF this r(2), of p] addListItem_after_insert [OF nd, of "Some d" cb]
    show ?thesis by simp
  qed
  have A2: "dicts (snd (addListItem ext p (Some d) cb st)) = dicts st"
    if n: "\<not> (duplicate_index ext p st = Inr (-1) \<and> (\<exists>r. ?pa = Some (VDict r) \<and> dicts st r \<noteq> []))"
  proof (cases "duplicate_index ext p st = Inr (-1)")
    case False
    then show ?thesis by (simp add: addListItem_dup_store)
  next
    case True
    have "\<forall>r. map_of ?kw (VStr ''project_args'') = Some (VDict r) \<longrightarrow> dicts st r = []"
      unfolding pa using n True by blast
    from insert_path_dicts [OF this, of p] addListItem_after_insert [OF True, of "Some d" cb]
    show ?thesis by simp
  qed
  have B: "lists (snd (addListItem ext p (Some d) cb st)) = (lists st)(l := (lists st l)[0 := VStr p]) \<and>
      (\<forall>r. fst (addListItem ext p (Some d) cb st) = Inr r \<longrightarrow>
         (\<exists>ks. items (snd (addListItem ext p (Some d) cb st)) r = mkProjectListItem ext ks \<and>
               map_of ks ''project_args'' = Some (VList l)))"
    if nd: "duplicate_index ext p st = Inr (-1)" and l: "?pa = Some (VList l)" "lists st l \<noteq> []"
  proof -
    from l pa have "map_of ?kw (VStr ''project_args'') = Some (VList l)" by simp
    from insert_path_list [OF this l(2), of p]
    have ip: "insert_path p ?kw st = (Inr ?kw, st\<lparr>lists := (lists st)(l := (lists st l)[0 := VStr p])\<rparr>)" .
    have 1: "lists (snd (addListItem ext p (Some d) cb st)) = (lists st)(l := (lists st l)[0 := VStr p])"
      using addListItem_after_insert [OF nd, of "Some d" cb] ip by simp
    have 2: "\<exists>ks. items (snd (addListItem ext p (Some d) cb st)) r = mkProjectListItem ext ks \<and>
               map_of ks ''project_args'' = Some (VList l)"
      if "fst (addListItem ext p (Some d) cb st) = Inr r" for r
    proof (cases "keyword_args ?kw")
      case (Inl e)
      with that show ?thesis unfolding addListItem_new [OF nd] ip by simp
    next
      case (Inr ks)
      from keyword_args_map_of [OF Inr, of "''project_args''"] l pa
      have "map_of ks ''project_args'' = Some (VList l)" by simp
      with that Inr show ?thesis
        unfolding addListItem_new [OF nd] ip
        using append_new_frame
          [of ext ks cb "st\<lparr>lists := (lists st)(l := (lists st l)[0 := VStr p])\<rparr>"]
        by (intro exI [of _ ks]) auto
    qed
    from 1 2 show ?thesis by blast
  qed
  have C: "lists (snd (addListItem ext p (Some d) cb st)) = (lists st)(next_ref st := [VStr p]) \<and>
      (\<forall>r. fst (addListItem ext p (Some d) cb st) = Inr r \<longrightarrow>
         (\<exists>ks. items (snd (addListItem ext p (Some d) cb st)) r = mkProjectListItem ext ks \<and>
               map_of ks ''project_args'' = Some (VList (next_ref st))))"
    if nd: "duplicate_index ext p st = Inr (-1)"
      and l: "?pa = None \<or> ?pa = Some (VList l) \<and> lists st l = []"
  proof -
    let ?kw1 = "dict_set (VStr ''project_args'') (VList (next_ref st)) ?kw"
    let ?st1 = "st\<lparr>lists := (lists st)(next_ref st := [VStr p]), next_ref := Suc (next_ref st)\<rparr>"
    from l pa have "map_of ?kw (VStr ''project_args'') = None \<or>
        (map_of ?kw (VStr ''project_args'') = Some (VList l) \<and> lists st l = [])" by simp
    from insert_path_absent [OF this, of p]
    have ip: "insert_path p ?kw st = (Inr ?kw1, ?st1)" .
    have 1: "lists (snd (addListItem ext p (Some d) cb st)) = (lists st)(next_ref st := [VStr p])"
      using addListItem_after_insert [OF nd, of "Some d" cb] ip by simp
    have 2: "\<exists>ks. items (snd (addListItem ext p (Some d) cb st)) r = mkProjectListItem ext ks \<and>
               map_of ks ''project_args'' = Some (VList (next_ref st))"
      if "fst (addListItem ext p (Some d) cb st) = Inr r" for r
    proof (cases "keyword_args ?kw1")
      case (Inl e)
      with that show ?thesis unfolding addListItem_new [OF nd] ip by simp
    next
      case (Inr ks)
      from keyword_args_map_of [OF Inr, of "''project_args''"]
      have "map_of ks ''project_args'' = Some (VList (next_ref st))"
        by (simp add: map_of_dict_set)
      with that Inr show ?thesis
        unfolding addListItem_new [OF nd] ip
        using append_new_frame [of ext ks cb ?st1]
        by (intro exI [of _ ks]) auto
    qed
    from 1 2 show ?thesis by blast
  qed
  have D: "lists (snd (addListItem ext p (Some d) cb st)) = lists st"
    if "duplicate_index ext p st \<noteq> Inr (-1)"
    using that by (simp add: addListItem_dup_store)
  have c1: "\<forall>r. duplicate_index ext p st = Inr (-1) \<and>
        map_of (dicts st d) (VStr ''project_args'') = Some (VDict r) \<and> dicts st r \<noteq> [] \<longrightarrow>
      dicts (snd (addListItem ext p (Some d) cb st)) =
        (dicts st)(r := dict_set (VInt 0) (VStr p) (dicts st r)) \<and>
      lists (snd (addListItem ext p (Some d) cb st)) = lists st"
  proof (intro allI impI)
    fix r
    assume "duplicate_index ext p st = Inr (-1) \<and>
        map_of (dicts st d) (VStr ''project_args'') = Some (VDict r) \<and> dicts st r \<noteq> []"
    then show "dicts (snd (addListItem ext p (Some d) cb st)) =
        (dicts st)(r := dict_set (VInt 0) (VStr p) (dicts st r)) \<and>
      lists (snd (addListItem ext p (Some d) cb st)) = lists st"
      by (intro A1) (elim conjE, assumption)+
  qed
  have c2: "\<not> (duplicate_index ext p st = Inr (-1) \<and>
       (\<exists>r. map_of (dicts st d) (VStr ''project_args'') = Some (VDict r) \<and> dicts st r \<noteq> [])) \<longrightarrow>
      dicts (snd (addListItem ext p (Some d) cb st)) = dicts st"
    by (intro impI) (rule A2)
  have c3: "duplicate_index ext p st = Inr (-1) \<and>
    map_of (dicts st d) (VStr ''project_args'') = Some (VList l) \<and> lists st l \<noteq> [] \<longrightarrow>
      lists (snd (addListItem ext p (Some d) cb st)) =
        (lists st)(l := (lists st l)[0 := VStr p]) \<and>
      (\<forall>r. fst (addListItem ext p (Some d) cb st) = Inr r \<longrightarrow>
         (\<exists>ks. items (snd (addListItem ext p (Some d) cb st)) r = mkProjectListItem ext ks \<and>
               map_of ks ''project_args'' = Some (VList l)))"
  proof (intro impI)
    assume "duplicate_index ext p st = Inr (-1) \<and>
      map_of (dicts st d) (VStr ''project_args'') = Some (VList l) \<and> lists st l \<noteq> []"
    then show "lists (snd (addListItem ext p (Some d) cb st)) =
        (lists st)(l := (lists st l)[0 := VStr p]) \<and>
      (\<forall>r. fst (addListItem ext p (Some d) cb st) = Inr r \<longrightarrow>
         (\<exists>ks. items (snd (addListItem ext p (Some d) cb st)) r = mkProjectListItem ext ks \<and>
               map_of ks ''project_args'' = Some (VList l)))"
      by (intro B) (elim conjE, assumption)+
  qed
  have c4: "duplicate_index ext p st = Inr (-1) \<and>
    (map_of (dicts st d) (VStr ''project_args'') = None \<or>
     map_of (dicts st d) (VStr ''project_args'') = Some (VList l) \<and> lists st l = []) \<longrightarrow>
      lists (snd (addListItem ext p (Some d) cb st)) = (lists st)(next_ref st := [VStr p]) \<and>
      (\<forall>r. fst (addListItem ext p (Some d) cb st) = Inr r \<longrightarrow>
         (\<exists>ks. items (snd (addListItem ext p (Some d) cb st)) r = mkProjectListItem ext ks \<and>
               map_of ks ''project_args'' = Some (VList (next_ref st))))"
  proof (intro impI)
    assume "duplicate_index ext p st = Inr (-1) \<and>
      (map_of (dicts st d) (VStr ''project_args'') = None \<or>
       map_of (dicts st d) (VStr ''project_args'') = Some (VList l) \<and> lists st l = [])"
    then show "lists (snd (addListItem ext p (Some d) cb st)) = (lists st)(next_ref st := [VStr p]) \<and>
      (\<forall>r. fst (addListItem ext p (Some d) cb st) = Inr r \<longrightarrow>
         (\<exists>ks. items (snd (addListItem ext p (Some d) cb st)) r = mkProjectListItem ext ks \<and>
               map_of ks ''project_args'' = Some (VList (next_ref st))))"
      by (intro C) (elim conjE, assumption)+
  qed
  have c5: "duplicate_index ext p st \<noteq> Inr (-1) \<longrightarrow>
      lists (snd (addListItem ext p (Some d) cb st)) = lists st"
    by (intro impI) (rule D)
  show ?thesis
    by (rule conjI [OF c1 conjI [OF c2 conjI [OF c3 conjI [OF c4 c5]]]])
qed

theorem addListItem_project_args_witness:
  "duplicate_index example_ext ''/home/b'' state_a = Inr (-1) \<and>
   map_of (dicts state_a 6) (VStr ''project_args'') = Some (VList 7) \<and>
   lists state_a 7 = [VStr ''x'', VStr ''y''] \<and>
   dicts (snd (addListItem example_ext ''/home/b'' (Some 6) None state_a)) 6 =
     [(VStr ''project_args'', VList 7)] \<and>
   lists (snd (addListItem example_ext ''/home/b'' (Some 6) None state_a)) 7 =
     [VStr ''/home/b'', VStr ''y''] \<and>
   map_of (dicts state_a 2) (VStr ''project_args'') = None \<and>
   lists (snd (addListItem example_ext ''/home/b'' (Some 2) None state_a)) 11 = [VStr ''/home/b''] \<and>
   lists (snd (addListItem example_ext ''/home/b'' (Some 2) None state_a)) 7 =
     [VStr ''x'', VStr ''y''] \<and>
   map_of (dicts state_a 10) (VStr ''project_args'') = Some (VDict 10) \<and>
   dicts (snd (addListItem example_ext ''/home/b'' (Some 10) None state_a)) 10 =
     [(VStr ''project_args'', VDict 10), (VInt 0, VStr ''/home/b'')] \<and>
   duplicate_index example_ext ''/home/a'' state_a = Inr 0 \<and>
   lists (snd (addListItem example_ext ''/home/a'' (Some 6) None state_a)) 7 =
     [VStr ''x'', VStr ''y''] \<and>
   dicts (snd (addListItem example_ext ''/home/a'' (Some 10) None state_a)) 10 =
     [(VStr ''project_args'', VDict 10)]"
proof -
  have h: "duplicate_index example_ext ''/home/b'' state_a = Inr (-1)"
    "duplicate_index example_ext ''/home/a'' state_a = Inr 0"
    by (simp_all add: state_a_dup state_a_new)
  have s: "map_of (dicts state_a 6) (VStr ''project_args'') = Some (VList 7)"
    "lists state_a 7 = [VStr ''x'', VStr ''y'']"
    "map_of (dicts state_a 2) (VStr ''project_args'') = None"
    "map_of (dicts state_a 10) (VStr ''project_args'') = Some (VDict 10)"
    "dicts state_a 6 = [(VStr ''project_args'', VList 7)]"
    "dicts state_a 10 = [(VStr ''project_args'', VDict 10)]"
    "next_ref state_a = 11"
    by (simp_all add: state_a_def)
  note T6 = addListItem_project_args [where st = state_a and d = 6 and ext = example_ext
        and p = "''/home/b''" and cb = None and l = 7]
  note T2 = addListItem_project_args [where st = state_a and d = 2 and ext = example_ext
        and p = "''/home/b''" and cb = None and l = 7]
  note T10 = addListItem_project_args [where st = state_a and d = 10 and ext = example_ext
        and p = "''/home/b''" and cb = None and l = 7]
  note D6 = addListItem_project_args [where st = state_a and d = 6 and ext = example_ext
        and p = "''/home/a''" and cb = None and l = 7]
  note D10 = addListItem_project_args [where st = state_a and d = 10 and ext = example_ext
        and p = "''/home/a''" and cb = None and l = 7]
  have 1: "dicts (snd (addListItem example_ext ''/home/b'' (Some 6) None state_a)) = dicts state_a"
    using T6 [THEN conjunct2, THEN conjunct1] s(1) by simp
  have 2: "lists (snd (addListItem example_ext ''/home/b'' (Some 6) None state_a)) =
      (lists state_a)(7 := (lists state_a 7)[0 := VStr ''/home/b''])"
    using T6 [THEN conjunct2, THEN conjunct2, THEN conjunct1] h(1) s(1,2) by simp
  have 3: "lists (snd (addListItem example_ext ''/home/b'' (Some 2) None state_a)) =
      (lists state_a)(next_ref state_a := [VStr ''/home/b''])"
    using T2 [THEN conjunct2, THEN conjunct2, THEN conjunct2, THEN conjunct1] h(1) s(3) by simp
  have 4: "dicts (snd (addListItem example_ext ''/home/b'' (Some 10) None state_a)) =
      (dicts state_a)(10 := dict_set (VInt 0) (VStr ''/home/b'') (dicts state_a 10))"
    using T10 [THEN conjunct1] h(1) s(4,6) by simp
  have 5: "lists (snd (addListItem example_ext ''/home/a'' (Some 6) None state_a)) = lists state_a"
    using D6 [THEN conjunct2, THEN conjunct2, THEN conjunct2, THEN conjunct2] h(2) by simp
  have 6: "dicts (snd (addListItem example_ext ''/home/a'' (Some 10) None state_a)) = dicts state_a"
    using D10 [THEN conjunct2, THEN conjunct1] h(2) by simp
  from h s show ?thesis
    by (simp add: 1 2 3 4 5 6)
qed

end
